theory Spec2Isabelle
  imports Complex_Main
begin

section \<open>Data model (types.ts)\<close>

text \<open>
  A TypeScript \<open>number\<close> is modelled as a \<open>real\<close>: the finite values, with exact
  arithmetic. Where the source tests \<open>isNaN\<close>, the tested value is a \<open>real option\<close> and
  \<open>None\<close> stands for NaN. \<open>Date.now()\<close> is a natural number of milliseconds, given to
  the operations as an argument. The field \<open>id\<close> of each interface is prefixed with the
  interface it belongs to, as are the fields that two interfaces share.
\<close>

record WeightEntry =
  entry_id :: string
  weight :: real
  crateCount :: real
  timestamp :: nat

record MortalityEntry =
  mort_id :: string
  mort_count :: real
  mort_weight :: real
  mort_timestamp :: nat

record Sale =
  sale_id :: string
  clientName :: string
  targetFullCrates :: real
  createdAt :: nat
  fullCrates :: "WeightEntry list"
  emptyCrates :: "WeightEntry list"
  mortality :: "MortalityEntry list"
  isCompleted :: bool

record Provider =
  provider_id :: string
  name :: string
  logo :: "string option"
  initialFullCrates :: real
  chickensPerCrate :: real
  provider_createdAt :: nat
  sales :: "Sale list"
  isActive :: bool

section \<open>Metric calculations (App.tsx, calculateSaleMetrics)\<close>

record Metrics =
  fullWeight :: real
  fullCount :: real
  emptyWeight :: real
  emptyCount :: real
  avgTare :: real
  totalTare :: real
  deadCount :: real
  deadWeight :: real
  netWeight :: real
  totalBirds :: real
  avgWeightPerBird :: real

text \<open>
  \<open>xs.reduce((a, b) => a + f(b), 0)\<close> is a left fold from 0.
\<close>

definition reduce_sum :: "('a \<Rightarrow> real) \<Rightarrow> 'a list \<Rightarrow> real" where
  "reduce_sum f xs = foldl (\<lambda>a b. a + f b) 0 xs"

text \<open>
  The repository holds two versions of \<open>App.tsx\<close>. \<open>calculateSaleMetrics\<close> is taken from
  the one with the parameter \<open>chickensPerCrate\<close>; the other computes the same fields up to
  \<open>netWeight\<close> and has neither the parameter nor the two bird fields. The parameter has the
  default value 9, used when the caller passes no argument (\<open>None\<close>).
\<close>

definition calculateSaleMetrics :: "Sale \<Rightarrow> real option \<Rightarrow> Metrics" where
  "calculateSaleMetrics sale chickensPerCrateArg =
    (let chickensPerCrate = (case chickensPerCrateArg of None \<Rightarrow> 9 | Some c \<Rightarrow> c);
         fullWeight = reduce_sum weight (fullCrates sale);
         fullCount = reduce_sum crateCount (fullCrates sale);
         emptyWeight = reduce_sum weight (emptyCrates sale);
         emptyCount = reduce_sum crateCount (emptyCrates sale);
         deadCount = reduce_sum mort_count (mortality sale);
         deadWeight = reduce_sum mort_weight (mortality sale);
         avgTare = (if emptyCount > 0 then emptyWeight / emptyCount else 5 / 2);
         totalTare = fullCount * avgTare;
         netWeight = max 0 (fullWeight - totalTare - deadWeight);
         totalBirds = (fullCount * chickensPerCrate) - deadCount;
         avgWeightPerBird = (if totalBirds > 0 then netWeight / totalBirds else 0)
     in \<lparr> fullWeight = fullWeight, fullCount = fullCount, emptyWeight = emptyWeight,
          emptyCount = emptyCount, avgTare = avgTare, totalTare = totalTare,
          deadCount = deadCount, deadWeight = deadWeight, netWeight = netWeight,
          totalBirds = totalBirds, avgWeightPerBird = avgWeightPerBird \<rparr>)"

section \<open>Application state and ledger operations (App.tsx)\<close>

text \<open>
  The component state that the ledger operations read: the list of providers and the two
  selections, each \<open>string | null\<close>. \<open>currentProvider\<close> and \<open>currentSales\<close> are
  derived from it on every render.
\<close>

record AppState =
  providers :: "Provider list"
  selectedProviderId :: "string option"
  currentSaleId :: "string option"

text \<open>\<open>!v\<close> on a \<open>string | null\<close> holds for \<open>null\<close> and for the empty string.\<close>

definition truthy :: "string option \<Rightarrow> bool" where
  "truthy v = (case v of None \<Rightarrow> False | Some s \<Rightarrow> s \<noteq> [])"

definition currentProvider :: "AppState \<Rightarrow> Provider option" where
  "currentProvider st =
     find (\<lambda>p. Some (provider_id p) = selectedProviderId st) (providers st)"

definition currentSales :: "AppState \<Rightarrow> Sale list" where
  "currentSales st = (case currentProvider st of None \<Rightarrow> [] | Some p \<Rightarrow> sales p)"

definition handleUpdateProviderSales :: "string \<Rightarrow> Sale list \<Rightarrow> AppState \<Rightarrow> AppState" where
  "handleUpdateProviderSales providerId updatedSales st =
     st\<lparr>providers :=
          map (\<lambda>p. if provider_id p = providerId then p\<lparr>sales := updatedSales\<rparr> else p)
              (providers st)\<rparr>"

definition toggleSaleLock :: "string \<Rightarrow> AppState \<Rightarrow> AppState" where
  "toggleSaleLock saleId st =
     (case selectedProviderId st of
        None \<Rightarrow> st
      | Some pid \<Rightarrow>
          if pid = [] then st
          else handleUpdateProviderSales pid
                 (map (\<lambda>s. if sale_id s = saleId then s\<lparr>isCompleted := \<not> isCompleted s\<rparr> else s)
                      (currentSales st)) st)"

datatype EntryType = FULL | EMPTY | MORTALITY

text \<open>
  The three \<open>alert\<close> calls of \<open>addWeight\<close>, with the numbers that their messages show in
  the version of \<open>App.tsx\<close> that spells them out: the remaining stock; the client's name,
  limit and current count; the attempted number of empty crates and the number of full
  crates. The other version raises the same three alerts, under the same conditions,
  with fixed texts. \<open>toggleSaleLock\<close>, \<open>addWeight\<close> and \<open>deleteEntry\<close> are otherwise the
  same in both.
\<close>

datatype Alert =
    StockInsufficient real
  | ClientLimitExceeded string real real
  | EmptyExceedsFull real real

text \<open>\<open>Date.now().toString()\<close>: the decimal digits of a natural number.\<close>

definition digit_char :: "nat \<Rightarrow> char" where
  "digit_char d = ''0123456789'' ! d"

function toString :: "nat \<Rightarrow> string" where
  "toString n = (if n < 10 then [digit_char n] else toString (n div 10) @ [digit_char (n mod 10)])"
  by pat_completeness auto
termination
  by (relation "measure id") auto

declare toString.simps [simp del]

text \<open>
  \<open>addWeight\<close> returns the alert it raised, if any, and the next state. The two readings
  of the clock are the arguments \<open>nowId\<close> (for the entry id) and \<open>now\<close> (for the
  timestamp).
\<close>

definition addWeight ::
  "EntryType \<Rightarrow> real \<Rightarrow> real \<Rightarrow> nat \<Rightarrow> nat \<Rightarrow> AppState \<Rightarrow> Alert option \<times> AppState" where
  "addWeight type w count nowId now st =
    (if \<not> truthy (currentSaleId st) \<or> \<not> truthy (selectedProviderId st) then (None, st)
     else case (currentSaleId st, selectedProviderId st, currentProvider st) of
       (Some csid, Some pid, Some cp) \<Rightarrow>
         (case find (\<lambda>s. sale_id s = csid) (currentSales st) of
            None \<Rightarrow> (None, st)
          | Some currentSale \<Rightarrow>
              let totalSoldGlobal =
                    foldl (\<lambda>acc s. acc + reduce_sum crateCount (fullCrates s)) 0 (currentSales st);
                  currentClientCount = reduce_sum crateCount (fullCrates currentSale);
                  totalFullCrates = reduce_sum crateCount (fullCrates currentSale);
                  totalEmptyCrates = reduce_sum crateCount (emptyCrates currentSale)
              in
              if type = FULL \<and> totalSoldGlobal + count > initialFullCrates cp
                then (Some (StockInsufficient (initialFullCrates cp - totalSoldGlobal)), st)
              else if type = FULL \<and> currentClientCount + count > targetFullCrates currentSale
                then (Some (ClientLimitExceeded (clientName currentSale)
                              (targetFullCrates currentSale) currentClientCount), st)
              else if type = EMPTY \<and> totalEmptyCrates + count > totalFullCrates
                then (Some (EmptyExceedsFull (totalEmptyCrates + count) totalFullCrates), st)
              else
                let entryId = toString nowId;
                    timestamp = now;
                    updatedSales =
                      map (\<lambda>sale.
                            if sale_id sale = csid then
                              if isCompleted sale then sale
                              else if type = FULL then
                                sale\<lparr>fullCrates := fullCrates sale @
                                  [\<lparr>entry_id = entryId, weight = w, crateCount = count,
                                    timestamp = timestamp\<rparr>]\<rparr>
                              else if type = EMPTY then
                                sale\<lparr>emptyCrates := emptyCrates sale @
                                  [\<lparr>entry_id = entryId, weight = w, crateCount = count,
                                    timestamp = timestamp\<rparr>]\<rparr>
                              else
                                sale\<lparr>mortality := mortality sale @
                                  [\<lparr>mort_id = entryId, mort_count = count, mort_weight = w,
                                    mort_timestamp = timestamp\<rparr>]\<rparr>
                            else sale)
                          (currentSales st)
                in (None, handleUpdateProviderSales pid updatedSales st))
     | _ \<Rightarrow> (None, st))"

definition deleteEntry :: "EntryType \<Rightarrow> string \<Rightarrow> AppState \<Rightarrow> AppState" where
  "deleteEntry type eid st =
    (if \<not> truthy (currentSaleId st) \<or> \<not> truthy (selectedProviderId st) then st
     else case (currentSaleId st, selectedProviderId st) of
       (Some csid, Some pid) \<Rightarrow>
         handleUpdateProviderSales pid
           (map (\<lambda>sale.
                  if sale_id sale = csid then
                    if isCompleted sale then sale
                    else if type = FULL then
                      sale\<lparr>fullCrates := filter (\<lambda>e. entry_id e \<noteq> eid) (fullCrates sale)\<rparr>
                    else if type = EMPTY then
                      sale\<lparr>emptyCrates := filter (\<lambda>e. entry_id e \<noteq> eid) (emptyCrates sale)\<rparr>
                    else
                      sale\<lparr>mortality := filter (\<lambda>e. mort_id e \<noteq> eid) (mortality sale)\<rparr>
                  else sale)
                (currentSales st)) st
     | _ \<Rightarrow> st)"

section \<open>Weighing panel (components/WeighingPanel.tsx)\<close>

text \<open>
  \<open>handleSubmit\<close> reads the two form fields with \<open>parseFloat\<close>; its arguments \<open>w\<close> and
  \<open>c\<close> are the two results (\<open>None\<close> is NaN). It returns the arguments of the call
  \<open>onAdd(w, c)\<close> when it makes one. \<open>currentCountVal\<close> of the component is the same
  \<open>parseFloat(count)\<close> as \<open>c\<close>.
\<close>

definition isOverLimit :: "real option \<Rightarrow> real option \<Rightarrow> bool" where
  "isOverLimit maxAllowed currentCountVal =
     (case maxAllowed of
        None \<Rightarrow> False
      | Some m \<Rightarrow> (case currentCountVal of None \<Rightarrow> False | Some c \<Rightarrow> c > m))"

definition handleSubmit ::
  "bool \<Rightarrow> real option \<Rightarrow> real option \<Rightarrow> real option \<Rightarrow> (real \<times> real) option" where
  "handleSubmit disabled maxAllowed w c =
     (if disabled then None
      else if isOverLimit maxAllowed c then None
      else case (w, c) of
             (Some w', Some c') \<Rightarrow> if w' > 0 \<and> c' > 0 then Some (w', c') else None
           | _ \<Rightarrow> None)"

text \<open>
  The panel as the sale view wires it: \<open>onAdd={(w, c) => addWeight(type, w, c)}\<close>. The
  props \<open>disabled\<close> and \<open>maxAllowed\<close> are arguments.
\<close>

definition submitEntry ::
  "EntryType \<Rightarrow> bool \<Rightarrow> real option \<Rightarrow> real option \<Rightarrow> real option \<Rightarrow> nat \<Rightarrow> nat \<Rightarrow> AppState
     \<Rightarrow> Alert option \<times> AppState" where
  "submitEntry type disabled maxAllowed w c nowId now st =
     (case handleSubmit disabled maxAllowed w c of
        None \<Rightarrow> (None, st)
      | Some (w', c') \<Rightarrow> addWeight type w' c' nowId now st)"

section \<open>Scale reading (App.tsx, readScaleWeight)\<close>

definition is_digit :: "char \<Rightarrow> bool" where
  "is_digit c \<longleftrightarrow> c \<in> set ''0123456789''"

definition digit_val :: "char \<Rightarrow> nat" where
  "digit_val c = of_char c - 48"

definition digits_value :: "string \<Rightarrow> nat" where
  "digits_value s = foldl (\<lambda>a c. 10 * a + digit_val c) 0 s"

text \<open>
  \<open>text.match(/[\d]+(\.[\d]+)?/)\<close>: the leftmost match starts at the first digit, takes
  every digit that follows and then, when a point and at least one digit come next, the
  point and every digit after it. The result is \<open>match[0]\<close>, or \<open>None\<close> for \<open>null\<close>.
\<close>

definition match_number :: "string \<Rightarrow> string option" where
  "match_number text =
     (let s = dropWhile (\<lambda>c. \<not> is_digit c) text in
      if s = [] then None
      else
        let ip = takeWhile is_digit s;
            r = dropWhile is_digit s
        in case r of
             [] \<Rightarrow> Some ip
           | c # r' \<Rightarrow>
               if c = CHR ''.'' \<and> takeWhile is_digit r' \<noteq> []
               then Some (ip @ c # takeWhile is_digit r')
               else Some ip)"

text \<open>
  \<open>parseFloat\<close> on the decimal literals this program passes to it (a regular-expression
  match or a \<open>toFixed\<close> result): an optional minus sign, digits, and optionally a point
  and digits; what follows is ignored. \<open>None\<close> is NaN. The other forms that the built-in
  reads (leading white space, an exponent, a leading point, \<open>Infinity\<close>) do not occur in
  those arguments.
\<close>

definition parseFloat :: "string \<Rightarrow> real option" where
  "parseFloat s =
     (let neg = (s \<noteq> [] \<and> hd s = CHR ''-'');
          t = (if neg then tl s else s);
          ip = takeWhile is_digit t;
          r = dropWhile is_digit t;
          fp = (case r of [] \<Rightarrow> [] | c # r' \<Rightarrow> if c = CHR ''.'' then takeWhile is_digit r' else [])
      in if ip = [] then None
         else Some ((if neg then - 1 else 1) *
                    (real (digits_value ip) + real (digits_value fp) / 10 ^ length fp)))"

text \<open>
  \<open>x.toFixed(f)\<close>: the integer \<open>n\<close> for which \<open>n / 10^f\<close> is closest to \<open>x\<close>, the larger
  one on a tie, written with at least \<open>f + 1\<close> digits and a point before the last \<open>f\<close>
  (the form of the result for every \<open>x\<close> below \<open>10^21\<close> in size).
\<close>

definition toFixed :: "nat \<Rightarrow> real \<Rightarrow> string" where
  "toFixed f x =
     (let n = nat \<lfloor>\<bar>x\<bar> * 10 ^ f + 1 / 2\<rfloor>;
          ds = toString n;
          padded = replicate (f + 1 - length ds) (CHR ''0'') @ ds;
          k = length padded - f
      in (if x < 0 then ''-'' else '''') @ take k padded @
         (if f = 0 then [] else CHR ''.'' # drop k padded))"

text \<open>
  The connected characteristic holds the last payload in \<open>value\<close>, or nothing yet; the
  payload is the text that \<open>TextDecoder\<close> gives. \<open>Math.random()\<close> is the argument
  \<open>random\<close>.
\<close>

record BluetoothRemoteGATTCharacteristic =
  char_value :: "string option"

definition readScaleWeight ::
  "BluetoothRemoteGATTCharacteristic option \<Rightarrow> real \<Rightarrow> real option" where
  "readScaleWeight scaleChar random =
     (let simulated = parseFloat (toFixed 2 (random * 20 + 10)) in
      case scaleChar of
        None \<Rightarrow> simulated
      | Some ch \<Rightarrow>
          (case char_value ch of
             None \<Rightarrow> simulated
           | Some text \<Rightarrow>
               (case match_number text of
                  None \<Rightarrow> simulated
                | Some m \<Rightarrow> parseFloat m)))"

section \<open>Ticket encoder and preview (App.tsx)\<close>

definition ESC :: string where "ESC = [CHR 0x1B]"

definition GS :: string where "GS = [CHR 0x1D]"

definition NL :: string where "NL = [CHR 0x0A]"

definition INIT :: string where "INIT = ESC @ ''@''"

definition BOLD_ON :: string where "BOLD_ON = ESC @ ''E'' @ [CHR 0x01]"

definition BOLD_OFF :: string where "BOLD_OFF = ESC @ ''E'' @ [CHR 0x00]"

definition CENTER :: string where "CENTER = ESC @ ''a'' @ [CHR 0x01]"

definition LEFT :: string where "LEFT = ESC @ ''a'' @ [CHR 0x00]"

definition CUT :: string where "CUT = GS @ ''V'' @ [CHR 0x41, CHR 0x00]"

text \<open>
  The library functions that the templates call and that are not part of the repository:
  \<open>String.prototype.toUpperCase\<close>, \<open>Date.prototype.toLocaleString\<close> and the conversion
  of a number to a string in a template literal.
\<close>

record Builtins =
  toUpperCase :: "string \<Rightarrow> string"
  toLocaleString :: "nat \<Rightarrow> string"
  numberToString :: "real \<Rightarrow> string"

text \<open>
  A template literal that opens with a line break and ends every line with one. The two
  templates are those of the version of \<open>App.tsx\<close> with the average weight per bird; the
  other version has the same lines and directives without that line.
\<close>

definition template :: "string list \<Rightarrow> string" where
  "template ls = NL @ concat (map (\<lambda>l. l @ NL) ls)"

definition generateTicket :: "Builtins \<Rightarrow> Sale \<Rightarrow> Provider \<Rightarrow> string" where
  "generateTicket js sale provider =
     (let m = calculateSaleMetrics sale (Some (chickensPerCrate provider));
          date = toLocaleString js (createdAt sale)
      in template
        [CENTER @ ''POLLO CONTROL PRO'',
         ''PROVEEDOR: '' @ toUpperCase js (name provider),
         ''--------------------------------'',
         ''CLIENTE: '' @ toUpperCase js (clientName sale),
         ''FECHA: '' @ date,
         (if isCompleted sale then ''(VENTA CERRADA)'' else ''(PENDIENTE)''),
         ''--------------------------------'',
         LEFT,
         ''Jabas Solicitadas: '' @ numberToString js (targetFullCrates sale),
         ''Jabas Llenas:      '' @ numberToString js (fullCount m),
         ''Peso Bruto:        '' @ toFixed 2 (fullWeight m) @ '' kg'',
         ''Jabas Vacias:      '' @ numberToString js (emptyCount m),
         ''Tara (Prom):       '' @ toFixed 2 (totalTare m) @ '' kg'',
         ''Muertos:           '' @ numberToString js (deadCount m) @ '' und'',
         ''Peso Muertos:      '' @ toFixed 2 (deadWeight m) @ '' kg'',
         ''--------------------------------'',
         BOLD_ON @ ''PESO NETO:      '' @ toFixed 2 (netWeight m) @ '' kg'' @ BOLD_OFF,
         ''Prom. Pollo:       '' @ toFixed 3 (avgWeightPerBird m) @ '' kg'',
         ''--------------------------------''])"

record Totals =
  fc :: real
  fw :: real
  ec :: real
  tt :: real
  dc :: real
  dw :: real
  nw :: real
  birds :: real

definition generateProviderSummary :: "Builtins \<Rightarrow> nat \<Rightarrow> AppState \<Rightarrow> string" where
  "generateProviderSummary js now st =
     (case currentProvider st of
        None \<Rightarrow> ''''
      | Some cp \<Rightarrow>
          let totals =
                foldl (\<lambda>acc sale.
                         let m = calculateSaleMetrics sale (Some (chickensPerCrate cp))
                         in \<lparr>fc = fc acc + fullCount m, fw = fw acc + fullWeight m,
                             ec = ec acc + emptyCount m, tt = tt acc + totalTare m,
                             dc = dc acc + deadCount m, dw = dw acc + deadWeight m,
                             nw = nw acc + netWeight m, birds = birds acc + totalBirds m\<rparr>)
                      \<lparr>fc = 0, fw = 0, ec = 0, tt = 0, dc = 0, dw = 0, nw = 0, birds = 0\<rparr>
                      (currentSales st);
              totalAvg = (if birds totals > 0 then nw totals / birds totals else 0);
              date = toLocaleString js now
          in template
            [CENTER @ ''RESUMEN DE PROVEEDOR'',
             toUpperCase js (name cp),
             date,
             ''--------------------------------'',
             LEFT,
             ''Total Ventas:   '' @ numberToString js (real (length (currentSales st))),
             ''Stock Inicial:  '' @ numberToString js (initialFullCrates cp) @ '' Jabas'',
             ''Jabas Vendidas: '' @ numberToString js (fc totals),
             ''Stock Actual:   '' @ numberToString js (initialFullCrates cp - fc totals),
             ''--------------------------------'',
             ''Peso Bruto Tot: '' @ toFixed 2 (fw totals) @ '' kg'',
             ''Tara Total:     '' @ toFixed 2 (tt totals) @ '' kg'',
             ''Muertos Total:  '' @ numberToString js (dc totals) @ '' u / ''
                @ toFixed 2 (dw totals) @ '' kg'',
             ''--------------------------------'',
             BOLD_ON @ ''NETO TOTAL:     '' @ toFixed 2 (nw totals) @ '' kg'' @ BOLD_OFF,
             ''PROMEDIO POLLO: '' @ toFixed 3 totalAvg @ '' kg'',
             ''--------------------------------''])"

text \<open>
  The text shown by \<open>renderTicketModal\<close>:
  \<open>ticketContent.replace(/\x1b/g, '').replace(/\x1d/g, '')\<close>.
\<close>

definition preview :: "string \<Rightarrow> string" where
  "preview ticketContent =
     filter (\<lambda>c. c \<noteq> CHR 0x1D) (filter (\<lambda>c. c \<noteq> CHR 0x1B) ticketContent)"

section \<open>Vocabulary of the properties\<close>

text \<open>The sale with a new entry appended to, or an entry removed from, one sequence.\<close>

definition appendEntry :: "EntryType \<Rightarrow> real \<Rightarrow> real \<Rightarrow> nat \<Rightarrow> nat \<Rightarrow> Sale \<Rightarrow> Sale" where
  "appendEntry type w count nowId now sale =
     (case type of
        FULL \<Rightarrow> sale\<lparr>fullCrates := fullCrates sale @
                  [\<lparr>entry_id = toString nowId, weight = w, crateCount = count, timestamp = now\<rparr>]\<rparr>
      | EMPTY \<Rightarrow> sale\<lparr>emptyCrates := emptyCrates sale @
                  [\<lparr>entry_id = toString nowId, weight = w, crateCount = count, timestamp = now\<rparr>]\<rparr>
      | MORTALITY \<Rightarrow> sale\<lparr>mortality := mortality sale @
                  [\<lparr>mort_id = toString nowId, mort_count = count, mort_weight = w,
                    mort_timestamp = now\<rparr>]\<rparr>)"

definition removeEntry :: "EntryType \<Rightarrow> string \<Rightarrow> Sale \<Rightarrow> Sale" where
  "removeEntry type eid sale =
     (case type of
        FULL \<Rightarrow> sale\<lparr>fullCrates := filter (\<lambda>e. entry_id e \<noteq> eid) (fullCrates sale)\<rparr>
      | EMPTY \<Rightarrow> sale\<lparr>emptyCrates := filter (\<lambda>e. entry_id e \<noteq> eid) (emptyCrates sale)\<rparr>
      | MORTALITY \<Rightarrow> sale\<lparr>mortality := filter (\<lambda>e. mort_id e \<noteq> eid) (mortality sale)\<rparr>)"

definition entry_ids :: "EntryType \<Rightarrow> Sale \<Rightarrow> string list" where
  "entry_ids type s =
     (case type of
        FULL \<Rightarrow> map entry_id (fullCrates s)
      | EMPTY \<Rightarrow> map entry_id (emptyCrates s)
      | MORTALITY \<Rightarrow> map mort_id (mortality s))"

text \<open>The crates sold by a provider: the counts of the full entries of all its sales.\<close>

definition totalSold :: "Sale list \<Rightarrow> real" where
  "totalSold ss = sum_list (map (\<lambda>s. sum_list (map crateCount (fullCrates s))) ss)"

text \<open>
  A sequence of full-crate additions across the sales of the selected provider: each
  request selects its sale (\<open>setCurrentSaleId\<close>) and calls \<open>addWeight\<close>.
\<close>

type_synonym FullRequest = "string \<times> real \<times> real \<times> nat \<times> nat"

fun addFulls :: "FullRequest list \<Rightarrow> AppState \<Rightarrow> AppState" where
  "addFulls [] st = st"
| "addFulls ((saleId, w, count, nowId, now) # rs) st =
     addFulls rs (snd (addWeight FULL w count nowId now (st\<lparr>currentSaleId := Some saleId\<rparr>)))"

text \<open>
  The invariant of such a sequence: the stock \<open>I\<close> of the selected provider, unique sale
  ids, and no more than \<open>I\<close> crates sold.
\<close>

definition stock_ok :: "real \<Rightarrow> AppState \<Rightarrow> bool" where
  "stock_ok I st \<longleftrightarrow>
     map_option initialFullCrates (currentProvider st) = Some I
   \<and> distinct (map sale_id (currentSales st))
   \<and> totalSold (currentSales st) \<le> I"

text \<open>The operations on the ledger, and runs of them.\<close>

datatype Operation =
    AddEntry EntryType real real nat nat
  | DeleteEntry EntryType string
  | ToggleLock string

fun perform :: "Operation \<Rightarrow> AppState \<Rightarrow> AppState" where
  "perform (AddEntry type w count nowId now) st = snd (addWeight type w count nowId now st)"
| "perform (DeleteEntry type eid) st = deleteEntry type eid st"
| "perform (ToggleLock saleId) st = toggleSaleLock saleId st"

definition run :: "Operation list \<Rightarrow> AppState \<Rightarrow> AppState" where
  "run ops st = foldl (\<lambda>s op. perform op s) st ops"

text \<open>
  Empty crates within full crates, for one sale; with it, the invariant of a run: no
  negative count among the empty entries, and unique sale ids.
\<close>

definition emptyWithinFull :: "Sale \<Rightarrow> bool" where
  "emptyWithinFull s \<longleftrightarrow>
     sum_list (map crateCount (emptyCrates s)) \<le> sum_list (map crateCount (fullCrates s))"

definition sale_ok :: "Sale \<Rightarrow> bool" where
  "sale_ok s \<longleftrightarrow> emptyWithinFull s \<and> list_all (\<lambda>e. 0 \<le> crateCount e) (emptyCrates s)"

definition ledger_ok :: "AppState \<Rightarrow> bool" where
  "ledger_ok st \<longleftrightarrow> distinct (map sale_id (currentSales st)) \<and> list_all sale_ok (currentSales st)"

text \<open>
  The operations that keep empty crates within full crates: an addition with a positive
  count, as the weighing panel submits it, a deletion from the empty or mortality
  sequence, and a lock toggle.
\<close>

fun admissible :: "Operation \<Rightarrow> bool" where
  "admissible (AddEntry type w count nowId now) = (0 < count)"
| "admissible (DeleteEntry type eid) = (type \<noteq> FULL)"
| "admissible (ToggleLock saleId) = True"

text \<open>What an operation of one kind on the current sale leaves unchanged.\<close>

definition provider_frame :: "string option \<Rightarrow> Provider \<Rightarrow> Provider \<Rightarrow> bool" where
  "provider_frame sel p p' \<longleftrightarrow>
     provider_id p' = provider_id p \<and> name p' = name p \<and> logo p' = logo p
   \<and> initialFullCrates p' = initialFullCrates p \<and> chickensPerCrate p' = chickensPerCrate p
   \<and> provider_createdAt p' = provider_createdAt p \<and> isActive p' = isActive p
   \<and> (Some (provider_id p) \<noteq> sel \<longrightarrow> p' = p)"

definition sale_frame :: "EntryType \<Rightarrow> string option \<Rightarrow> Sale \<Rightarrow> Sale \<Rightarrow> bool" where
  "sale_frame type cur s s' \<longleftrightarrow>
     sale_id s' = sale_id s \<and> clientName s' = clientName s
   \<and> targetFullCrates s' = targetFullCrates s \<and> createdAt s' = createdAt s
   \<and> isCompleted s' = isCompleted s
   \<and> (type \<noteq> FULL \<longrightarrow> fullCrates s' = fullCrates s)
   \<and> (type \<noteq> EMPTY \<longrightarrow> emptyCrates s' = emptyCrates s)
   \<and> (type \<noteq> MORTALITY \<longrightarrow> mortality s' = mortality s)
   \<and> (Some (sale_id s) \<noteq> cur \<longrightarrow> s' = s)"

definition frame :: "EntryType \<Rightarrow> AppState \<Rightarrow> AppState \<Rightarrow> bool" where
  "frame type st st' \<longleftrightarrow>
     selectedProviderId st' = selectedProviderId st \<and> currentSaleId st' = currentSaleId st
   \<and> list_all2 (provider_frame (selectedProviderId st)) (providers st) (providers st')
   \<and> list_all2 (sale_frame type (currentSaleId st)) (currentSales st) (currentSales st')"

text \<open>The part of a payload after the leading digits that belongs to the match.\<close>

definition fraction_of :: "string \<Rightarrow> string" where
  "fraction_of rest =
     (case rest of
        [] \<Rightarrow> []
      | c # r' \<Rightarrow> if c = CHR ''.'' \<and> takeWhile is_digit r' \<noteq> []
                 then c # takeWhile is_digit r' else [])"

text \<open>
  The reading of the specification, for comparison with \<open>readScaleWeight\<close>: the first
  match of a signed or unsigned decimal number, so that a minus sign directly before the
  first digit belongs to the number.
\<close>

definition spec_signed_decimal :: "string \<Rightarrow> real option" where
  "spec_signed_decimal text =
     (case match_number text of
        None \<Rightarrow> None
      | Some m \<Rightarrow>
          let pre = takeWhile (\<lambda>c. \<not> is_digit c) text in
          if pre \<noteq> [] \<and> last pre = CHR ''-'' then map_option uminus (parseFloat m)
          else parseFloat m)"

section \<open>Example states\<close>

text \<open>
  A provider with a stock of 100 crates and one sale of 10 full and 10 empty crates,
  locked or open; a provider with a stock of 5 crates and two empty sales, beside a
  second provider; and a provider with one sale without entries.
\<close>

definition example_provider :: "Sale list \<Rightarrow> Provider" where
  "example_provider ss =
     \<lparr>provider_id = ''p1'', name = ''Granja'', logo = None, initialFullCrates = 100,
      chickensPerCrate = 9, provider_createdAt = 1, sales = ss, isActive = True\<rparr>"

definition example_sale :: "bool \<Rightarrow> Sale" where
  "example_sale locked =
     \<lparr>sale_id = ''s1'', clientName = ''Ana'', targetFullCrates = 20, createdAt = 2,
      fullCrates = [\<lparr>entry_id = ''3'', weight = 50, crateCount = 10, timestamp = 3\<rparr>],
      emptyCrates = [\<lparr>entry_id = ''4'', weight = 20, crateCount = 10, timestamp = 4\<rparr>],
      mortality = [], isCompleted = locked\<rparr>"

definition example_state :: "bool \<Rightarrow> AppState" where
  "example_state locked =
     \<lparr>providers = [example_provider [example_sale locked]],
      selectedProviderId = Some ''p1'', currentSaleId = Some ''s1''\<rparr>"

definition example_stock_state :: AppState where
  "example_stock_state =
     \<lparr>providers =
        [\<lparr>provider_id = ''p1'', name = ''Granja'', logo = None, initialFullCrates = 5,
          chickensPerCrate = 9, provider_createdAt = 1,
          sales = [\<lparr>sale_id = ''s1'', clientName = ''Ana'', targetFullCrates = 10,
                    createdAt = 2, fullCrates = [], emptyCrates = [], mortality = [],
                    isCompleted = False\<rparr>,
                   \<lparr>sale_id = ''s2'', clientName = ''Luis'', targetFullCrates = 10,
                    createdAt = 3, fullCrates = [], emptyCrates = [], mortality = [],
                    isCompleted = False\<rparr>],
          isActive = True\<rparr>,
         \<lparr>provider_id = ''p2'', name = ''Avicola'', logo = None, initialFullCrates = 50,
          chickensPerCrate = 8, provider_createdAt = 4, sales = [], isActive = True\<rparr>],
      selectedProviderId = Some ''p1'', currentSaleId = Some ''s1''\<rparr>"

definition fresh_state :: AppState where
  "fresh_state =
     \<lparr>providers =
        [\<lparr>provider_id = ''p1'', name = ''Granja'', logo = None, initialFullCrates = 100,
          chickensPerCrate = 9, provider_createdAt = 1,
          sales = [\<lparr>sale_id = ''s1'', clientName = ''Ana'', targetFullCrates = 20,
                    createdAt = 2, fullCrates = [], emptyCrates = [], mortality = [],
                    isCompleted = False\<rparr>],
          isActive = True\<rparr>],
      selectedProviderId = Some ''p1'', currentSaleId = Some ''s1''\<rparr>"

text \<open>
  Stand-ins for the library functions on the example data: upper case for ASCII letters,
  the timestamp in decimal for the date, and whole numbers in decimal.
\<close>

definition plain_builtins :: Builtins where
  "plain_builtins =
     \<lparr>toUpperCase =
        map (\<lambda>c. let n = (of_char c :: nat) in
                  if 97 \<le> n \<and> n \<le> 122 then char_of (n - 32) else c),
      toLocaleString = toString,
      numberToString = (\<lambda>x. toString (nat \<lfloor>x\<rfloor>))\<rparr>"

section \<open>Properties of the metrics\<close>

lemma foldl_add_sum_list:
  "foldl (\<lambda>a b. a + f b) (z::real) xs = z + sum_list (map f xs)"
  by (induction xs arbitrary: z) simp_all

lemma reduce_sum_sum_list: "reduce_sum f xs = sum_list (map f xs)"
  by (simp add: reduce_sum_def foldl_add_sum_list)

text \<open>
  Claim C1. For every sale and every chickens-per-crate value, the metrics are the sums
  over the three entry lists, the average tare is \<open>emptyWeight / emptyCount\<close> when
  \<open>emptyCount > 0\<close> and 2.5 otherwise, the total tare is \<open>fullCount * avgTare\<close>, the net
  weight is \<open>max 0 (fullWeight - totalTare - deadWeight)\<close> and so never negative, the
  number of birds is \<open>fullCount * chickensPerCrate - deadCount\<close>, and the average weight
  per bird is \<open>netWeight / totalBirds\<close> when \<open>totalBirds > 0\<close> and 0 otherwise.
\<close>

theorem calculateSaleMetrics_spec:
  fixes sale :: Sale and c :: real
  defines "m \<equiv> calculateSaleMetrics sale (Some c)"
  shows "fullWeight m = sum_list (map weight (fullCrates sale))
       \<and> fullCount m = sum_list (map crateCount (fullCrates sale))
       \<and> emptyWeight m = sum_list (map weight (emptyCrates sale))
       \<and> emptyCount m = sum_list (map crateCount (emptyCrates sale))
       \<and> deadWeight m = sum_list (map mort_weight (mortality sale))
       \<and> deadCount m = sum_list (map mort_count (mortality sale))
       \<and> avgTare m = (if emptyCount m > 0 then emptyWeight m / emptyCount m else 2.5)
       \<and> totalTare m = fullCount m * avgTare m
       \<and> netWeight m = max 0 (fullWeight m - totalTare m - deadWeight m)
       \<and> 0 \<le> netWeight m
       \<and> totalBirds m = fullCount m * c - deadCount m
       \<and> avgWeightPerBird m = (if totalBirds m > 0 then netWeight m / totalBirds m else 0)"
  unfolding m_def calculateSaleMetrics_def Let_def
  by (simp add: reduce_sum_sum_list)

section \<open>How the operations update the state\<close>

lemma find_map_same:
  "(\<And>x. P (f x) = P x) \<Longrightarrow> find P (map f xs) = map_option f (find P xs)"
  by (induction xs) simp_all

lemma currentProvider_update:
  "currentProvider (handleUpdateProviderSales pid us st) =
     map_option (\<lambda>p. if provider_id p = pid then p\<lparr>sales := us\<rparr> else p) (currentProvider st)"
  unfolding currentProvider_def handleUpdateProviderSales_def
  by (simp add: find_map_same)

lemma currentSales_update:
  assumes "selectedProviderId st = Some pid"
  shows "currentSales (handleUpdateProviderSales pid us st) =
           (case currentProvider st of None \<Rightarrow> [] | Some p \<Rightarrow> us)"
proof (cases "currentProvider st")
  case None
  then show ?thesis by (simp add: currentSales_def currentProvider_update)
next
  case (Some p)
  then have "provider_id p = pid"
    using assms unfolding currentProvider_def by (auto dest: find_Some_iff[THEN iffD1])
  with Some show ?thesis by (simp add: currentSales_def currentProvider_update)
qed

lemma currentSales_update_map:
  assumes "selectedProviderId st = Some pid"
  shows "currentSales (handleUpdateProviderSales pid (map g (currentSales st)) st) =
           map g (currentSales st)"
  using currentSales_update[OF assms, of "map g (currentSales st)"]
  by (cases "currentProvider st") (simp_all add: currentSales_def)

lemma selections_update [simp]:
  "selectedProviderId (handleUpdateProviderSales pid us st) = selectedProviderId st"
  "currentSaleId (handleUpdateProviderSales pid us st) = currentSaleId st"
  by (simp_all add: handleUpdateProviderSales_def)

lemma currentProvider_currentSaleId [simp]:
  "currentProvider (st\<lparr>currentSaleId := x\<rparr>) = currentProvider st"
  by (simp add: currentProvider_def)

lemma currentSales_currentSaleId [simp]:
  "currentSales (st\<lparr>currentSaleId := x\<rparr>) = currentSales st"
  by (simp add: currentSales_def)

lemma foldl_totalSold':
  "foldl (\<lambda>acc s. acc + sum_list (map crateCount (fullCrates s))) 0 ss = totalSold ss"
  using foldl_add_sum_list[of "\<lambda>s. sum_list (map crateCount (fullCrates s))" 0 ss]
  by (simp add: totalSold_def)

lemma addWeight_update_fun:
  "(\<lambda>sale. if sale_id sale = csid then
              if isCompleted sale then sale
              else if type = FULL then
                sale\<lparr>fullCrates := fullCrates sale @
                  [\<lparr>entry_id = toString nowId, weight = w, crateCount = count, timestamp = now\<rparr>]\<rparr>
              else if type = EMPTY then
                sale\<lparr>emptyCrates := emptyCrates sale @
                  [\<lparr>entry_id = toString nowId, weight = w, crateCount = count, timestamp = now\<rparr>]\<rparr>
              else
                sale\<lparr>mortality := mortality sale @
                  [\<lparr>mort_id = toString nowId, mort_count = count, mort_weight = w,
                    mort_timestamp = now\<rparr>]\<rparr>
            else sale)
   = (\<lambda>s. if sale_id s = csid \<and> \<not> isCompleted s then appendEntry type w count nowId now s else s)"
  by (rule ext, cases type) (simp_all add: appendEntry_def)

lemma addWeight_unfold:
  assumes "currentSaleId st = Some csid" "csid \<noteq> []"
      and "selectedProviderId st = Some pid" "pid \<noteq> []"
      and "currentProvider st = Some cp"
      and "find (\<lambda>s. sale_id s = csid) (currentSales st) = Some cur"
  shows "addWeight type w count nowId now st =
    (if type = FULL \<and> totalSold (currentSales st) + count > initialFullCrates cp
       then (Some (StockInsufficient (initialFullCrates cp - totalSold (currentSales st))), st)
     else if type = FULL \<and> sum_list (map crateCount (fullCrates cur)) + count > targetFullCrates cur
       then (Some (ClientLimitExceeded (clientName cur) (targetFullCrates cur)
                     (sum_list (map crateCount (fullCrates cur)))), st)
     else if type = EMPTY \<and> sum_list (map crateCount (emptyCrates cur)) + count
                              > sum_list (map crateCount (fullCrates cur))
       then (Some (EmptyExceedsFull (sum_list (map crateCount (emptyCrates cur)) + count)
                     (sum_list (map crateCount (fullCrates cur)))), st)
     else (None, handleUpdateProviderSales pid
             (map (\<lambda>s. if sale_id s = csid \<and> \<not> isCompleted s
                        then appendEntry type w count nowId now s else s) (currentSales st)) st))"
  unfolding addWeight_def Let_def addWeight_update_fun reduce_sum_sum_list foldl_totalSold'
  using assms by (simp add: truthy_def)

lemma addWeight_noop:
  assumes "currentSaleId st = None \<or> currentSaleId st = Some [] \<or> selectedProviderId st = None
         \<or> selectedProviderId st = Some [] \<or> currentProvider st = None
         \<or> (\<exists>csid. currentSaleId st = Some csid \<and> find (\<lambda>s. sale_id s = csid) (currentSales st) = None)"
  shows "addWeight type w count nowId now st = (None, st)"
  unfolding addWeight_def Let_def
  using assms by (auto simp add: truthy_def split: option.splits)

lemma addWeight_accepted:
  assumes "currentSaleId st = Some csid" "csid \<noteq> []"
      and "selectedProviderId st = Some pid" "pid \<noteq> []"
      and "currentProvider st = Some cp"
      and "find (\<lambda>s. sale_id s = csid) (currentSales st) = Some cur"
      and acc: "fst (addWeight type w count nowId now st) = None"
  shows "type = FULL \<Longrightarrow> totalSold (currentSales st) + count \<le> initialFullCrates cp"
    and "type = FULL \<Longrightarrow> sum_list (map crateCount (fullCrates cur)) + count \<le> targetFullCrates cur"
    and "type = EMPTY \<Longrightarrow> sum_list (map crateCount (emptyCrates cur)) + count
                              \<le> sum_list (map crateCount (fullCrates cur))"
    and "snd (addWeight type w count nowId now st) =
           handleUpdateProviderSales pid
             (map (\<lambda>s. if sale_id s = csid \<and> \<not> isCompleted s
                        then appendEntry type w count nowId now s else s) (currentSales st)) st"
proof -
  note u = addWeight_unfold[OF assms(1-6), of type w count nowId now]
  show a: "totalSold (currentSales st) + count \<le> initialFullCrates cp" if "type = FULL"
  proof (rule ccontr)
    assume "\<not> ?thesis"
    then have "fst (addWeight type w count nowId now st) \<noteq> None" unfolding u using that by simp
    then show False using acc by simp
  qed
  show b: "sum_list (map crateCount (fullCrates cur)) + count \<le> targetFullCrates cur"
    if "type = FULL"
  proof (rule ccontr)
    assume "\<not> ?thesis"
    then have "fst (addWeight type w count nowId now st) \<noteq> None" unfolding u using that by simp
    then show False using acc by simp
  qed
  show c: "sum_list (map crateCount (emptyCrates cur)) + count
                              \<le> sum_list (map crateCount (fullCrates cur))" if "type = EMPTY"
  proof (rule ccontr)
    assume "\<not> ?thesis"
    then have "fst (addWeight type w count nowId now st) \<noteq> None" unfolding u using that by simp
    then show False using acc by simp
  qed
  show "snd (addWeight type w count nowId now st) =
           handleUpdateProviderSales pid
             (map (\<lambda>s. if sale_id s = csid \<and> \<not> isCompleted s
                        then appendEntry type w count nowId now s else s) (currentSales st)) st"
  proof (cases type)
    case FULL
    then show ?thesis unfolding u using a b by simp
  next
    case EMPTY
    then show ?thesis unfolding u using c by simp
  next
    case MORTALITY
    then show ?thesis unfolding u by simp
  qed
qed

lemma addWeight_cases:
  obtains (noop) "addWeight type w count nowId now st = (None, st)"
  | (run) csid pid cp cur where
      "currentSaleId st = Some csid" "csid \<noteq> []"
      "selectedProviderId st = Some pid" "pid \<noteq> []"
      "currentProvider st = Some cp"
      "find (\<lambda>s. sale_id s = csid) (currentSales st) = Some cur"
proof (cases "currentSaleId st = None \<or> currentSaleId st = Some [] \<or> selectedProviderId st = None
         \<or> selectedProviderId st = Some [] \<or> currentProvider st = None
         \<or> (\<exists>csid. currentSaleId st = Some csid \<and> find (\<lambda>s. sale_id s = csid) (currentSales st) = None)")
  case True
  then show ?thesis using addWeight_noop noop by blast
next
  case False
  then show ?thesis using run by (metis option.exhaust)
qed

lemma addWeight_rejected_unchanged:
  "fst (addWeight type w count nowId now st) = Some a \<Longrightarrow>
   snd (addWeight type w count nowId now st) = st"
proof (cases rule: addWeight_cases[of type w count nowId now st])
  case noop
  then show "snd (addWeight type w count nowId now st) = st" by simp
next
  case (run csid pid cp cur)
  assume "fst (addWeight type w count nowId now st) = Some a"
  then show "snd (addWeight type w count nowId now st) = st"
    unfolding addWeight_unfold[OF run] by (simp split: if_splits)
qed

lemma addWeight_currentSales:
  "currentSales (snd (addWeight type w count nowId now st)) = currentSales st
   \<or> (fst (addWeight type w count nowId now st) = None \<and>
      currentSales (snd (addWeight type w count nowId now st)) =
        map (\<lambda>s. if Some (sale_id s) = currentSaleId st \<and> \<not> isCompleted s
                 then appendEntry type w count nowId now s else s) (currentSales st))"
proof (cases rule: addWeight_cases[of type w count nowId now st])
  case noop
  then show ?thesis by simp
next
  case (run csid pid cp cur)
  show ?thesis
    unfolding addWeight_unfold[OF run]
    by (simp add: currentSales_update_map[OF run(3)] run(1))
qed

lemma deleteEntry_update_fun:
  "(\<lambda>sale. if sale_id sale = csid then
              if isCompleted sale then sale
              else if type = FULL then
                sale\<lparr>fullCrates := filter (\<lambda>e. entry_id e \<noteq> eid) (fullCrates sale)\<rparr>
              else if type = EMPTY then
                sale\<lparr>emptyCrates := filter (\<lambda>e. entry_id e \<noteq> eid) (emptyCrates sale)\<rparr>
              else
                sale\<lparr>mortality := filter (\<lambda>e. mort_id e \<noteq> eid) (mortality sale)\<rparr>
            else sale)
   = (\<lambda>s. if sale_id s = csid \<and> \<not> isCompleted s then removeEntry type eid s else s)"
  by (rule ext, cases type) (simp_all add: removeEntry_def)

lemma deleteEntry_unfold:
  assumes "currentSaleId st = Some csid" "csid \<noteq> []"
      and "selectedProviderId st = Some pid" "pid \<noteq> []"
  shows "deleteEntry type eid st =
     handleUpdateProviderSales pid
       (map (\<lambda>s. if sale_id s = csid \<and> \<not> isCompleted s then removeEntry type eid s else s)
            (currentSales st)) st"
  unfolding deleteEntry_def deleteEntry_update_fun
  using assms by (simp add: truthy_def)

lemma deleteEntry_noop:
  assumes "currentSaleId st = None \<or> currentSaleId st = Some [] \<or> selectedProviderId st = None
         \<or> selectedProviderId st = Some []"
  shows "deleteEntry type eid st = st"
  unfolding deleteEntry_def
  using assms by (auto simp add: truthy_def split: option.splits)

lemma deleteEntry_cases:
  obtains (noop) "deleteEntry type eid st = st"
  | (run) csid pid where
      "currentSaleId st = Some csid" "csid \<noteq> []"
      "selectedProviderId st = Some pid" "pid \<noteq> []"
proof (cases "currentSaleId st = None \<or> currentSaleId st = Some [] \<or> selectedProviderId st = None
         \<or> selectedProviderId st = Some []")
  case True
  then show ?thesis using deleteEntry_noop noop by blast
next
  case False
  then show ?thesis using run by (metis option.exhaust)
qed

lemma deleteEntry_currentSales:
  "currentSales (deleteEntry type eid st) = currentSales st
   \<or> currentSales (deleteEntry type eid st) =
        map (\<lambda>s. if Some (sale_id s) = currentSaleId st \<and> \<not> isCompleted s
                 then removeEntry type eid s else s) (currentSales st)"
proof (cases rule: deleteEntry_cases[of type eid st])
  case noop
  then show ?thesis by simp
next
  case (run csid pid)
  show ?thesis
    unfolding deleteEntry_unfold[OF run]
    by (simp add: currentSales_update_map[OF run(3)] run(1))
qed

lemma toggleSaleLock_currentSales:
  assumes "truthy (selectedProviderId st)"
  shows "currentSales (toggleSaleLock saleId st) =
           map (\<lambda>s. if sale_id s = saleId then s\<lparr>isCompleted := \<not> isCompleted s\<rparr> else s)
               (currentSales st)"
  using assms unfolding toggleSaleLock_def truthy_def
  by (auto split: option.splits simp: currentSales_update_map)

lemma toggle_selections [simp]:
  "selectedProviderId (toggleSaleLock saleId st) = selectedProviderId st"
  "currentSaleId (toggleSaleLock saleId st) = currentSaleId st"
  by (simp_all add: toggleSaleLock_def split: option.splits)

lemmas ledger_eval = currentSales_def currentProvider_def truthy_def addWeight_def
  deleteEntry_def toggleSaleLock_def handleUpdateProviderSales_def reduce_sum_def Let_def
  digit_char_def toString.simps

section \<open>Frame of an addition and of a deletion\<close>

lemma frame_refl: "frame type st st"
  by (simp add: frame_def list_all2_same provider_frame_def sale_frame_def)

lemma frame_update:
  assumes "selectedProviderId st = Some pid"
      and "\<And>s. sale_frame type (currentSaleId st) s (g s)"
  shows "frame type st (handleUpdateProviderSales pid (map g (currentSales st)) st)"
proof -
  have "list_all2 (provider_frame (Some pid)) (providers st)
          (map (\<lambda>p. if provider_id p = pid then p\<lparr>sales := map g (currentSales st)\<rparr> else p)
               (providers st))"
    by (simp add: list_all2_map2 list_all2_same provider_frame_def)
  moreover have "list_all2 (sale_frame type (currentSaleId st)) (currentSales st)
                   (map g (currentSales st))"
    using assms(2) by (simp add: list_all2_map2 list_all2_same)
  ultimately show ?thesis
    using assms(1)
    by (simp add: frame_def currentSales_update_map[OF assms(1)])
       (simp add: handleUpdateProviderSales_def)
qed

lemma sale_frame_append:
  "sale_frame type (Some csid) s
     (if sale_id s = csid \<and> \<not> isCompleted s then appendEntry type w count nowId now s else s)"
  by (cases type) (simp_all add: sale_frame_def appendEntry_def)

lemma sale_frame_remove:
  "sale_frame type (Some csid) s
     (if sale_id s = csid \<and> \<not> isCompleted s then removeEntry type eid s else s)"
  by (cases type) (simp_all add: sale_frame_def removeEntry_def)

text \<open>
  Claim C9. An \<open>addWeight\<close> or a \<open>deleteEntry\<close> of a given kind changes at most the entry
  sequence of that kind in the sales that carry the current sale id: every sale with
  another id is unchanged, the other two sequences and the fields \<open>id\<close>, \<open>clientName\<close>,
  \<open>targetFullCrates\<close>, \<open>createdAt\<close> and \<open>isCompleted\<close> of every sale are unchanged, and so
  are the fields of every provider other than \<open>sales\<close>, every provider that is not the
  selected one, and the two selections; whether the operation is accepted or rejected.
\<close>

theorem addWeight_deleteEntry_frame:
  "frame type st (snd (addWeight type w count nowId now st))
   \<and> frame type st (deleteEntry type eid st)"
proof
  show "frame type st (snd (addWeight type w count nowId now st))"
  proof (cases rule: addWeight_cases[of type w count nowId now st])
    case noop
    then show ?thesis by (simp add: frame_refl)
  next
    case (run csid pid cp cur)
    have "frame type st (handleUpdateProviderSales pid
               (map (\<lambda>s. if sale_id s = csid \<and> \<not> isCompleted s
                          then appendEntry type w count nowId now s else s)
                    (currentSales st)) st)"
      by (rule frame_update[OF run(3)]) (simp only: run(1) sale_frame_append)
    then show ?thesis
      unfolding addWeight_unfold[OF run] by (simp add: frame_refl)
  qed
  show "frame type st (deleteEntry type eid st)"
  proof (cases rule: deleteEntry_cases[of type eid st])
    case noop
    then show ?thesis by (simp add: frame_refl)
  next
    case (run csid pid)
    show ?thesis
      unfolding deleteEntry_unfold[OF run]
      by (rule frame_update[OF run(3)]) (simp only: run(1) sale_frame_remove)
  qed
qed

text \<open>
  Witness for C9: a full-crate addition to the first of two sales, and a deletion, in a
  state with two providers.
\<close>

theorem addWeight_deleteEntry_frame_witness:
  "currentSales (snd (addWeight FULL 30 3 4 4 example_stock_state)) ! 1
     = currentSales example_stock_state ! 1
   \<and> providers (snd (addWeight FULL 30 3 4 4 example_stock_state)) ! 1
     = providers example_stock_state ! 1
   \<and> fullCrates (currentSales (snd (addWeight FULL 30 3 4 4 example_stock_state)) ! 0)
     = [\<lparr>entry_id = ''4'', weight = 30, crateCount = 3, timestamp = 4\<rparr>]
   \<and> emptyCrates (currentSales (snd (addWeight FULL 30 3 4 4 example_stock_state)) ! 0) = []
   \<and> map name (providers (snd (addWeight FULL 30 3 4 4 example_stock_state)))
     = [''Granja'', ''Avicola'']
   \<and> map initialFullCrates (providers (snd (addWeight FULL 30 3 4 4 example_stock_state)))
     = [5, 50]
   \<and> deleteEntry FULL ''4'' example_stock_state = example_stock_state"
  using addWeight_deleteEntry_frame [of FULL example_stock_state 30 3 4 4 "''4''"]
  by (simp add: example_stock_state_def ledger_eval)

section \<open>Locked sales\<close>

lemma addWeight_locked_nth:
  assumes "i < length (currentSales st)" and "isCompleted (currentSales st ! i)"
  shows "currentSales (snd (addWeight type w count nowId now st)) ! i = currentSales st ! i"
  using addWeight_currentSales[of type w count nowId now st] assms by auto

lemma deleteEntry_locked_nth:
  assumes "i < length (currentSales st)" and "isCompleted (currentSales st ! i)"
  shows "currentSales (deleteEntry type eid st) ! i = currentSales st ! i"
  using deleteEntry_currentSales[of type eid st] assms by auto

lemma find_nth_Some:
  assumes "i < length xs" and "P (xs ! i)"
  shows "\<exists>y. find P xs = Some y"
  using assms by (cases "find P xs") (auto simp: find_None_iff)

lemma currentSales_nonempty_provider:
  "i < length (currentSales st) \<Longrightarrow> \<exists>cp. currentProvider st = Some cp"
  by (cases "currentProvider st") (simp_all add: currentSales_def)

lemma addWeight_open_nth:
  assumes i: "i < length (currentSales st)"
      and cur: "currentSaleId st = Some (sale_id (currentSales st ! i))"
      and op: "\<not> isCompleted (currentSales st ! i)"
      and acc: "fst (addWeight type w count nowId now st) = None"
      and ne: "sale_id (currentSales st ! i) \<noteq> []" and sel: "truthy (selectedProviderId st)"
  shows "currentSales (snd (addWeight type w count nowId now st)) ! i =
           appendEntry type w count nowId now (currentSales st ! i)"
proof -
  obtain cp where cp: "currentProvider st = Some cp"
    using currentSales_nonempty_provider[OF i] by blast
  obtain y where y: "find (\<lambda>s. sale_id s = sale_id (currentSales st ! i)) (currentSales st) = Some y"
    using find_nth_Some[OF i, of "\<lambda>s. sale_id s = sale_id (currentSales st ! i)"] by auto
  obtain pid where pid: "selectedProviderId st = Some pid" "pid \<noteq> []"
    using sel by (auto simp: truthy_def split: option.splits)
  have "addWeight type w count nowId now st =
          (None, handleUpdateProviderSales pid
             (map (\<lambda>s. if sale_id s = sale_id (currentSales st ! i) \<and> \<not> isCompleted s
                        then appendEntry type w count nowId now s else s) (currentSales st)) st)"
    using acc unfolding addWeight_unfold[OF cur ne pid cp y] by (simp split: if_splits)
  then show ?thesis
    using i op by (simp add: currentSales_update_map[OF pid(1)])
qed

lemma addWeight_MORTALITY_accepted: "fst (addWeight MORTALITY w count nowId now st) = None"
proof (cases rule: addWeight_cases[of MORTALITY w count nowId now st])
  case noop
  then show ?thesis by simp
next
  case (run csid pid cp cur)
  show ?thesis unfolding addWeight_unfold[OF run] by simp
qed

lemma deleteEntry_open_nth:
  assumes i: "i < length (currentSales st)"
      and cur: "currentSaleId st = Some (sale_id (currentSales st ! i))"
      and op: "\<not> isCompleted (currentSales st ! i)"
      and ne: "sale_id (currentSales st ! i) \<noteq> []" and sel: "truthy (selectedProviderId st)"
  shows "currentSales (deleteEntry type eid st) ! i = removeEntry type eid (currentSales st ! i)"
proof -
  obtain pid where pid: "selectedProviderId st = Some pid" "pid \<noteq> []"
    using sel by (auto simp: truthy_def split: option.splits)
  show ?thesis
    unfolding deleteEntry_unfold[OF cur ne pid]
    using i op by (simp add: currentSales_update_map[OF pid(1)])
qed

text \<open>
  Claim C4. For a sale of the selected provider, \<open>toggleSaleLock\<close> on its id always
  flips \<open>isCompleted\<close>. When the sale has \<open>isCompleted = true\<close>, \<open>addWeight\<close> and
  \<open>deleteEntry\<close> leave it as it is, whatever their arguments; and in the state after the
  toggle, when the sale is the current one, a deletion removes the entries with the
  given id, a mortality addition is always accepted, and every accepted addition appends
  its entry.
\<close>

theorem locked_sale_is_immutable_until_reopened:
  fixes st :: AppState and i :: nat
  defines "s \<equiv> currentSales st ! i"
  defines "st' \<equiv> toggleSaleLock (sale_id s) st"
  assumes i: "i < length (currentSales st)"
      and sel: "truthy (selectedProviderId st)"
  shows "currentSales st' ! i = s\<lparr>isCompleted := \<not> isCompleted s\<rparr>
       \<and> (isCompleted s \<longrightarrow>
           currentSales (snd (addWeight type w count nowId now st)) ! i = s
         \<and> currentSales (deleteEntry type eid st) ! i = s
         \<and> (currentSaleId st = Some (sale_id s) \<and> sale_id s \<noteq> [] \<longrightarrow>
             currentSales (deleteEntry type eid st') ! i
               = removeEntry type eid (s\<lparr>isCompleted := False\<rparr>)
           \<and> fst (addWeight MORTALITY w count nowId now st') = None
           \<and> (fst (addWeight type w count nowId now st') = None \<longrightarrow>
                currentSales (snd (addWeight type w count nowId now st')) ! i
                  = appendEntry type w count nowId now (s\<lparr>isCompleted := False\<rparr>))))"
proof (intro conjI impI)
  have cs': "currentSales st' =
      map (\<lambda>x. if sale_id x = sale_id s then x\<lparr>isCompleted := \<not> isCompleted x\<rparr> else x)
          (currentSales st)"
    unfolding st'_def by (rule toggleSaleLock_currentSales[OF sel])
  show flip: "currentSales st' ! i = s\<lparr>isCompleted := \<not> isCompleted s\<rparr>"
    using i by (simp add: cs' s_def)
  assume locked: "isCompleted s"
  show "currentSales (snd (addWeight type w count nowId now st)) ! i = s"
    unfolding s_def using addWeight_locked_nth i locked s_def by blast
  show "currentSales (deleteEntry type eid st) ! i = s"
    unfolding s_def using deleteEntry_locked_nth i locked s_def by blast
  assume a: "currentSaleId st = Some (sale_id s) \<and> sale_id s \<noteq> []"
  have t: "currentSales st' ! i = s\<lparr>isCompleted := False\<rparr>"
    using flip locked by simp
  have i': "i < length (currentSales st')" using i by (simp add: cs')
  have "currentSaleId st' = currentSaleId st" by (simp add: st'_def)
  then have cur': "currentSaleId st' = Some (sale_id (currentSales st' ! i))"
    using a t by simp
  have op': "\<not> isCompleted (currentSales st' ! i)" by (simp add: t)
  have ne': "sale_id (currentSales st' ! i) \<noteq> []" using a by (simp add: t)
  have sel': "truthy (selectedProviderId st')" using sel by (simp add: st'_def)
  show "currentSales (deleteEntry type eid st') ! i
           = removeEntry type eid (s\<lparr>isCompleted := False\<rparr>)"
    using deleteEntry_open_nth[OF i' cur' op' ne' sel'] by (simp add: t)
  show "fst (addWeight MORTALITY w count nowId now st') = None"
    by (rule addWeight_MORTALITY_accepted)
  assume "fst (addWeight type w count nowId now st') = None"
  from addWeight_open_nth[OF i' cur' op' this ne' sel']
  show "currentSales (snd (addWeight type w count nowId now st')) ! i
              = appendEntry type w count nowId now (s\<lparr>isCompleted := False\<rparr>)"
    by (simp add: t)
qed

text \<open>
  Witness for C4: a locked sale with one full and one empty entry; a full-crate addition
  and a deletion do nothing, and after the toggle both take effect.
\<close>

theorem locked_sale_witness:
  "0 < length (currentSales (example_state True))
   \<and> isCompleted (currentSales (example_state True) ! 0)
   \<and> truthy (selectedProviderId (example_state True))
   \<and> currentSaleId (example_state True) = Some ''s1''
   \<and> currentSales (snd (addWeight FULL 25 5 7 7 (example_state True))) ! 0 = example_sale True
   \<and> currentSales (deleteEntry FULL ''3'' (example_state True)) ! 0 = example_sale True
   \<and> currentSales (toggleSaleLock ''s1'' (example_state True)) ! 0 = example_sale False
   \<and> currentSales (toggleSaleLock ''s1'' (example_state False)) ! 0 = example_sale True
   \<and> fullCrates (currentSales (deleteEntry FULL ''3''
         (toggleSaleLock ''s1'' (example_state True))) ! 0) = []
   \<and> fst (addWeight FULL 25 5 7 7 (toggleSaleLock ''s1'' (example_state True))) = None
   \<and> fullCrates (currentSales (snd (addWeight FULL 25 5 7 7
         (toggleSaleLock ''s1'' (example_state True)))) ! 0)
       = [\<lparr>entry_id = ''3'', weight = 50, crateCount = 10, timestamp = 3\<rparr>,
          \<lparr>entry_id = ''7'', weight = 25, crateCount = 5, timestamp = 7\<rparr>]"
  using locked_sale_is_immutable_until_reopened
          [of 0 "example_state True" FULL 25 5 7 7 "''3''"]
        locked_sale_is_immutable_until_reopened
          [of 0 "example_state False" FULL 25 5 7 7 "''3''"]
  by (simp add: example_state_def example_provider_def example_sale_def ledger_eval
        appendEntry_def removeEntry_def)

section \<open>Provider stock\<close>

lemma totalSold_Cons [simp]:
  "totalSold (s # ss) = sum_list (map crateCount (fullCrates s)) + totalSold ss"
  "totalSold [] = 0"
  by (simp_all add: totalSold_def)

lemma map_update_other:
  "csid \<notin> sale_id ` set ss \<Longrightarrow>
   map (\<lambda>s. if sale_id s = csid \<and> Q s then f s else s) ss = ss"
  by (induction ss) auto

lemma totalSold_append_full:
  assumes "distinct (map sale_id ss)"
  shows "totalSold (map (\<lambda>s. if sale_id s = csid \<and> \<not> isCompleted s
                              then appendEntry FULL w count nowId now s else s) ss)
         = totalSold ss +
           (case find (\<lambda>s. sale_id s = csid) ss of
              None \<Rightarrow> 0 | Some cur \<Rightarrow> if isCompleted cur then 0 else count)"
  using assms
proof (induction ss)
  case Nil
  then show ?case by simp
next
  case (Cons s ss)
  show ?case
  proof (cases "sale_id s = csid")
    case True
    then have "csid \<notin> sale_id ` set ss" using Cons.prems by auto
    then show ?thesis
      using True by (simp add: map_update_other appendEntry_def)
  next
    case False
    then show ?thesis using Cons by simp
  qed
qed

lemma sale_id_append [simp]:
  "sale_id \<circ> (\<lambda>s. if sale_id s = csid \<and> \<not> isCompleted s
                      then appendEntry type w count nowId now s else s) = sale_id"
  by (rule ext) (simp add: appendEntry_def split: EntryType.splits)

lemma stock_ok_addWeight:
  assumes "stock_ok I st"
  shows "stock_ok I (snd (addWeight FULL w count nowId now st))"
proof (cases rule: addWeight_cases[of FULL w count nowId now st])
  case noop
  then show ?thesis using assms by simp
next
  case (run csid pid cp cur)
  have I: "initialFullCrates cp = I" and d: "distinct (map sale_id (currentSales st))"
    and le: "totalSold (currentSales st) \<le> I"
    using assms run(5) by (simp_all add: stock_ok_def)
  show ?thesis
  proof (cases "fst (addWeight FULL w count nowId now st)")
    case (Some a)
    then show ?thesis using addWeight_rejected_unchanged assms by simp
  next
    case None
    let ?g = "\<lambda>s. if sale_id s = csid \<and> \<not> isCompleted s
                   then appendEntry FULL w count nowId now s else s"
    have ok: "\<not> totalSold (currentSales st) + count > I"
      and res: "snd (addWeight FULL w count nowId now st) =
             handleUpdateProviderSales pid (map ?g (currentSales st)) st"
      using None unfolding addWeight_unfold[OF run] I by (simp_all split: if_splits)
    have "totalSold (map ?g (currentSales st)) \<le> I"
      unfolding totalSold_append_full[OF d] run(6) using ok le by simp
    then show ?thesis
      unfolding res stock_ok_def
      using d I run(5)
      by (simp add: currentSales_update_map[OF run(3)] currentProvider_update)
  qed
qed

lemma stock_ok_addFulls: "stock_ok I st \<Longrightarrow> stock_ok I (addFulls reqs st)"
proof (induction reqs arbitrary: st)
  case Nil
  then show ?case by simp
next
  case (Cons r rs)
  obtain saleId w count nowId now where r: "r = (saleId, w, count, nowId, now)"
    by (cases r) auto
  have "stock_ok I (st\<lparr>currentSaleId := Some saleId\<rparr>)"
    using Cons.prems by (simp add: stock_ok_def)
  then have "stock_ok I (snd (addWeight FULL w count nowId now (st\<lparr>currentSaleId := Some saleId\<rparr>)))"
    by (rule stock_ok_addWeight)
  then show ?case unfolding r by (simp add: Cons.IH)
qed

lemma addWeight_stock_rejected:
  assumes "currentProvider st = Some cp"
      and "totalSold (currentSales st) + count > initialFullCrates cp"
  shows "snd (addWeight FULL w count nowId now st) = st"
    and "truthy (currentSaleId st) \<Longrightarrow> truthy (selectedProviderId st) \<Longrightarrow>
         find (\<lambda>s. Some (sale_id s) = currentSaleId st) (currentSales st) \<noteq> None \<Longrightarrow>
         fst (addWeight FULL w count nowId now st)
           = Some (StockInsufficient (initialFullCrates cp - totalSold (currentSales st)))"
proof -
  show "snd (addWeight FULL w count nowId now st) = st"
  proof (cases rule: addWeight_cases[of FULL w count nowId now st])
    case noop
    then show ?thesis by simp
  next
    case (run csid pid cp' cur)
    then show ?thesis unfolding addWeight_unfold[OF run] using assms by simp
  qed
next
  assume a: "truthy (currentSaleId st)" "truthy (selectedProviderId st)"
    "find (\<lambda>s. Some (sale_id s) = currentSaleId st) (currentSales st) \<noteq> None"
  obtain csid where c: "currentSaleId st = Some csid" "csid \<noteq> []"
    using a(1) by (auto simp: truthy_def split: option.splits)
  obtain pid where p: "selectedProviderId st = Some pid" "pid \<noteq> []"
    using a(2) by (auto simp: truthy_def split: option.splits)
  obtain cur where f: "find (\<lambda>s. sale_id s = csid) (currentSales st) = Some cur"
    using a(3) c(1) by auto
  show "fst (addWeight FULL w count nowId now st)
           = Some (StockInsufficient (initialFullCrates cp - totalSold (currentSales st)))"
    unfolding addWeight_unfold[OF c p assms(1) f] using assms(2) by simp
qed

text \<open>
  Claim C2. For the selected provider, with sale ids that are unique and a stock that is
  not exceeded at the start, the full-crate counts summed over all its sales never
  exceed \<open>initialFullCrates\<close> after any sequence of full-crate additions across its
  sales; and an addition with \<open>totalSold + count > initialFullCrates\<close> leaves the whole
  state unchanged and, when it targets a sale of the provider, raises the stock alert
  with the remaining stock \<open>initialFullCrates - totalSold\<close>.
\<close>

theorem provider_stock_never_exceeded:
  assumes "currentProvider st = Some cp"
      and "distinct (map sale_id (sales cp))"
      and "totalSold (sales cp) \<le> initialFullCrates cp"
  shows "map_option initialFullCrates (currentProvider (addFulls reqs st))
           = Some (initialFullCrates cp)
       \<and> totalSold (currentSales (addFulls reqs st)) \<le> initialFullCrates cp
       \<and> (totalSold (sales cp) + count > initialFullCrates cp \<longrightarrow>
            snd (addWeight FULL w count nowId now st) = st
          \<and> (truthy (currentSaleId st) \<and> truthy (selectedProviderId st)
              \<and> find (\<lambda>s. Some (sale_id s) = currentSaleId st) (sales cp) \<noteq> None \<longrightarrow>
               fst (addWeight FULL w count nowId now st)
                 = Some (StockInsufficient (initialFullCrates cp - totalSold (sales cp)))))"
proof -
  have cs: "currentSales st = sales cp" using assms(1) by (simp add: currentSales_def)
  have "stock_ok (initialFullCrates cp) st"
    using assms by (simp add: stock_ok_def cs)
  then have "stock_ok (initialFullCrates cp) (addFulls reqs st)" by (rule stock_ok_addFulls)
  then show ?thesis
    using addWeight_stock_rejected[OF assms(1), of count w nowId now]
    by (auto simp: stock_ok_def cs)
qed

text \<open>
  Witness for C2: a stock of 5 crates and two sales; of the additions of 3, 2 and 1
  crates the third is rejected, and an addition of 6 crates is rejected with 5 remaining.
\<close>

theorem provider_stock_witness:
  "map_option initialFullCrates (currentProvider example_stock_state) = Some 5
   \<and> distinct (map sale_id (currentSales example_stock_state))
   \<and> totalSold (currentSales example_stock_state) \<le> 5
   \<and> totalSold (currentSales
        (addFulls [(''s1'', 30, 3, 4, 4), (''s2'', 20, 2, 5, 5), (''s1'', 10, 1, 6, 6)]
           example_stock_state)) \<le> 5
   \<and> map (\<lambda>s. sum_list (map crateCount (fullCrates s))) (currentSales
        (addFulls [(''s1'', 30, 3, 4, 4), (''s2'', 20, 2, 5, 5), (''s1'', 10, 1, 6, 6)]
           example_stock_state)) = [3, 2]
   \<and> addWeight FULL 10 6 4 4 example_stock_state
        = (Some (StockInsufficient 5), example_stock_state)"
  using provider_stock_never_exceeded
    [of example_stock_state "the (currentProvider example_stock_state)"
        "[(''s1'', 30, 3, 4, 4), (''s2'', 20, 2, 5, 5), (''s1'', 10, 1, 6, 6)]" 6 10 4 4]
  by (simp add: example_stock_state_def ledger_eval totalSold_def prod_eq_iff)

section \<open>Empty crates within full crates\<close>

lemma sum_list_filter_le:
  "list_all (\<lambda>e. 0 \<le> f e) xs \<Longrightarrow> sum_list (map f (filter P xs)) \<le> (sum_list (map f xs) :: real)"
  by (induction xs) auto

lemma list_all_mapI: "(\<And>x. x \<in> set xs \<Longrightarrow> P (f x)) \<Longrightarrow> list_all P (map f xs)"
  by (induction xs) simp_all

lemma list_all_filter: "list_all Q xs \<Longrightarrow> list_all Q (filter P xs)"
  by (induction xs) auto

lemma sale_ok_remove:
  "type \<noteq> FULL \<Longrightarrow> sale_ok s \<Longrightarrow> sale_ok (removeEntry type eid s)"
  using sum_list_filter_le[of crateCount "emptyCrates s" "\<lambda>e. entry_id e \<noteq> eid"]
  by (cases type) (auto simp: sale_ok_def emptyWithinFull_def removeEntry_def list_all_filter)

lemma sale_ok_toggle: "sale_ok (s\<lparr>isCompleted := b\<rparr>) = sale_ok s"
  by (simp add: sale_ok_def emptyWithinFull_def)

lemma sale_ok_append_other:
  "type \<noteq> EMPTY \<Longrightarrow> 0 < count \<Longrightarrow> sale_ok s \<Longrightarrow> sale_ok (appendEntry type w count nowId now s)"
  by (cases type) (auto simp: sale_ok_def emptyWithinFull_def appendEntry_def)

lemma sale_ok_append_empty:
  "0 < count \<Longrightarrow> sale_ok s \<Longrightarrow>
   \<not> sum_list (map crateCount (emptyCrates s)) + count > sum_list (map crateCount (fullCrates s)) \<Longrightarrow>
   sale_ok (appendEntry EMPTY w count nowId now s)"
  by (auto simp: sale_ok_def emptyWithinFull_def appendEntry_def)

lemma find_distinct_id:
  assumes "distinct (map sale_id ss)" and "find (\<lambda>s. sale_id s = csid) ss = Some cur"
      and "s \<in> set ss" and "sale_id s = csid"
  shows "s = cur"
proof -
  have "cur \<in> set ss" "sale_id cur = csid"
    using assms(2) by (auto simp: find_Some_iff)
  then show ?thesis using assms(1,3,4) by (metis distinct_map inj_onD)
qed

lemma sale_id_remove [simp]:
  "sale_id \<circ> (\<lambda>s. if sale_id s = csid \<and> \<not> isCompleted s
                      then removeEntry type eid s else s) = sale_id"
  by (rule ext) (simp add: removeEntry_def split: EntryType.splits)

lemma sale_id_toggle [simp]:
  "sale_id \<circ> (\<lambda>s. if sale_id s = saleId then s\<lparr>isCompleted := \<not> isCompleted s\<rparr> else s) = sale_id"
  by (rule ext) simp

lemma ledger_ok_addWeight:
  assumes "ledger_ok st" and "0 < count"
  shows "ledger_ok (snd (addWeight type w count nowId now st))"
proof (cases rule: addWeight_cases[of type w count nowId now st])
  case noop
  then show ?thesis using assms by simp
next
  case (run csid pid cp cur)
  have d: "distinct (map sale_id (currentSales st))" and ok: "list_all sale_ok (currentSales st)"
    using assms(1) by (simp_all add: ledger_ok_def)
  show ?thesis
  proof (cases "fst (addWeight type w count nowId now st)")
    case (Some a)
    then show ?thesis using addWeight_rejected_unchanged assms by simp
  next
    case None
    let ?g = "\<lambda>s. if sale_id s = csid \<and> \<not> isCompleted s
                   then appendEntry type w count nowId now s else s"
    have chk: "type = EMPTY \<longrightarrow> \<not> sum_list (map crateCount (emptyCrates cur)) + count
                              > sum_list (map crateCount (fullCrates cur))"
      using addWeight_accepted(3)[OF run None] by auto
    have res: "snd (addWeight type w count nowId now st) =
             handleUpdateProviderSales pid (map ?g (currentSales st)) st"
      by (rule addWeight_accepted(4)[OF run None])
    have "sale_ok (?g s)" if "s \<in> set (currentSales st)" for s
    proof (cases "sale_id s = csid \<and> \<not> isCompleted s")
      case True
      then have "s = cur" using find_distinct_id[OF d run(6) that] by simp
      moreover have "sale_ok s" using ok that by (simp add: list_all_iff)
      ultimately show ?thesis
        using True chk assms(2) sale_ok_append_empty sale_ok_append_other
        by (cases "type = EMPTY") auto
    next
      case False
      then show ?thesis using ok that by (auto simp: list_all_iff)
    qed
    then have "\<forall>s\<in>set (currentSales st). (sale_ok \<circ> ?g) s"
      unfolding comp_def by blast
    then have "list_all sale_ok (map ?g (currentSales st))"
      by (intro list_all_mapI) (simp add: comp_def)
    then show ?thesis
      unfolding res ledger_ok_def
      using d by (simp add: currentSales_update_map[OF run(3)])
  qed
qed

lemma ledger_ok_deleteEntry:
  assumes "ledger_ok st" and "type \<noteq> FULL"
  shows "ledger_ok (deleteEntry type eid st)"
proof (cases rule: deleteEntry_cases[of type eid st])
  case noop
  then show ?thesis using assms by simp
next
  case (run csid pid)
  have "\<forall>s\<in>set (currentSales st). (sale_ok \<circ> (\<lambda>s. if sale_id s = csid \<and> \<not> isCompleted s
                 then removeEntry type eid s else s)) s"
    using assms by (auto simp: ledger_ok_def list_all_iff sale_ok_remove)
  then have "list_all sale_ok (map (\<lambda>s. if sale_id s = csid \<and> \<not> isCompleted s
                 then removeEntry type eid s else s) (currentSales st))"
    by (intro list_all_mapI) (simp add: comp_def)
  then show ?thesis
    unfolding deleteEntry_unfold[OF run] ledger_ok_def
    using assms(1) by (simp add: currentSales_update_map[OF run(3)] ledger_ok_def)
qed

lemma ledger_ok_toggle:
  assumes "ledger_ok st"
  shows "ledger_ok (toggleSaleLock saleId st)"
proof (cases "truthy (selectedProviderId st)")
  case True
  have "\<forall>s\<in>set (currentSales st).
          (sale_ok \<circ> (\<lambda>s. if sale_id s = saleId then s\<lparr>isCompleted := \<not> isCompleted s\<rparr> else s)) s"
    using assms by (auto simp: ledger_ok_def list_all_iff sale_ok_toggle)
  then have "list_all sale_ok
          (map (\<lambda>s. if sale_id s = saleId then s\<lparr>isCompleted := \<not> isCompleted s\<rparr> else s)
               (currentSales st))"
    by (intro list_all_mapI) (simp add: comp_def)
  then show ?thesis
    unfolding ledger_ok_def toggleSaleLock_currentSales[OF True]
    using assms by (simp add: ledger_ok_def)
next
  case False
  then have "toggleSaleLock saleId st = st"
    by (auto simp: toggleSaleLock_def truthy_def split: option.splits)
  then show ?thesis using assms by simp
qed

lemma ledger_ok_perform:
  "ledger_ok st \<Longrightarrow> admissible op \<Longrightarrow> ledger_ok (perform op st)"
  by (cases op) (simp_all add: ledger_ok_addWeight ledger_ok_deleteEntry ledger_ok_toggle)

lemma ledger_ok_run:
  "ledger_ok st \<Longrightarrow> list_all admissible ops \<Longrightarrow> ledger_ok (run ops st)"
  unfolding run_def
  by (induction ops arbitrary: st) (simp_all add: ledger_ok_perform)

lemma addWeight_empty_rejected:
  assumes "truthy (currentSaleId st)" "truthy (selectedProviderId st)"
      and "find (\<lambda>s. Some (sale_id s) = currentSaleId st) (currentSales st) = Some cur"
      and "sum_list (map crateCount (emptyCrates cur)) + count
             > sum_list (map crateCount (fullCrates cur))"
  shows "addWeight EMPTY w count nowId now st =
           (Some (EmptyExceedsFull (sum_list (map crateCount (emptyCrates cur)) + count)
                    (sum_list (map crateCount (fullCrates cur)))), st)"
proof -
  obtain csid where c: "currentSaleId st = Some csid" "csid \<noteq> []"
    using assms(1) by (auto simp: truthy_def split: option.splits)
  obtain pid where p: "selectedProviderId st = Some pid" "pid \<noteq> []"
    using assms(2) by (auto simp: truthy_def split: option.splits)
  have f: "find (\<lambda>s. sale_id s = csid) (currentSales st) = Some cur"
    using assms(3) c(1) by simp
  obtain cp where cp: "currentProvider st = Some cp"
    using f by (cases "currentProvider st") (simp_all add: currentSales_def)
  show ?thesis
    unfolding addWeight_unfold[OF c p cp f] using assms(4) by simp
qed

text \<open>
  Claim C3, as amended. On sales with unique ids whose empty entries have non-negative
  counts, \<open>sum emptyCrates.count \<le> sum fullCrates.count\<close> is kept by every run of
  additions with a positive count (accepted or rejected), deletions of empty or
  mortality entries and lock toggles; and an empty-crate addition to the current sale
  with \<open>emptyCount + count > fullCount\<close> is rejected with the alert and changes nothing.
  Deletions of full entries are left out: \<open>deleteEntry\<close> checks nothing.
\<close>

theorem empty_within_full_preserved:
  assumes "distinct (map sale_id (currentSales st))"
      and "list_all sale_ok (currentSales st)"
      and "list_all admissible ops"
  shows "list_all emptyWithinFull (currentSales (run ops st))
       \<and> (truthy (currentSaleId st) \<and> truthy (selectedProviderId st)
          \<and> find (\<lambda>s. Some (sale_id s) = currentSaleId st) (currentSales st) = Some cur
          \<and> sum_list (map crateCount (emptyCrates cur)) + count
               > sum_list (map crateCount (fullCrates cur)) \<longrightarrow>
          addWeight EMPTY w count nowId now st =
            (Some (EmptyExceedsFull (sum_list (map crateCount (emptyCrates cur)) + count)
                     (sum_list (map crateCount (fullCrates cur)))), st))"
proof -
  have "ledger_ok st" using assms(1,2) by (simp add: ledger_ok_def)
  then have "ledger_ok (run ops st)" using assms(3) by (rule ledger_ok_run)
  then have "list_all emptyWithinFull (currentSales (run ops st))"
    by (simp add: ledger_ok_def list_all_iff sale_ok_def)
  then show ?thesis using addWeight_empty_rejected by blast
qed

text \<open>
  Witness for C3: a full-crate addition, an empty-crate addition, the deletion of the
  empty entry and a lock toggle on a fresh sale; and the rejection of an empty-crate
  addition to a sale without full crates.
\<close>

theorem empty_within_full_witness:
  "distinct (map sale_id (currentSales fresh_state))
   \<and> list_all sale_ok (currentSales fresh_state)
   \<and> list_all admissible [AddEntry FULL 50 10 3 3, AddEntry EMPTY 20 10 4 4,
                            DeleteEntry EMPTY ''4'', ToggleLock ''s1'']
   \<and> list_all emptyWithinFull
       (currentSales (run [AddEntry FULL 50 10 3 3, AddEntry EMPTY 20 10 4 4,
                           DeleteEntry EMPTY ''4'', ToggleLock ''s1''] fresh_state))
   \<and> truthy (currentSaleId fresh_state) \<and> truthy (selectedProviderId fresh_state)
   \<and> find (\<lambda>s. Some (sale_id s) = currentSaleId fresh_state) (currentSales fresh_state)
        = Some (currentSales fresh_state ! 0)
   \<and> addWeight EMPTY 20 10 4 4 fresh_state = (Some (EmptyExceedsFull 10 0), fresh_state)"
  using empty_within_full_preserved
    [of fresh_state "[AddEntry FULL 50 10 3 3, AddEntry EMPTY 20 10 4 4,
                      DeleteEntry EMPTY ''4'', ToggleLock ''s1'']"
        "currentSales fresh_state ! 0" 10 20 4 4]
  by (simp add: fresh_state_def ledger_eval run_def emptyWithinFull_def sale_ok_def)

text \<open>
  Counterexample to C3 as stated: after a full-crate addition of 10 crates and an
  empty-crate addition of 10 crates, both accepted, the deletion of the full entry
  leaves 10 empty crates against no full crate.
\<close>

theorem deleting_full_entry_counterexample:
  "emptyWithinFull
     (currentSales (run [AddEntry FULL 50 10 3 3, AddEntry EMPTY 20 10 4 4] fresh_state) ! 0)
   \<and> \<not> emptyWithinFull
     (currentSales (run [AddEntry FULL 50 10 3 3, AddEntry EMPTY 20 10 4 4,
                         DeleteEntry FULL ''3''] fresh_state) ! 0)"
  by (simp add: fresh_state_def ledger_eval run_def emptyWithinFull_def)

section \<open>Validation of the submitted weight and count\<close>

lemma handleSubmit_invalid:
  assumes "(case w of None \<Rightarrow> True | Some x \<Rightarrow> x \<le> 0) \<or> (case c of None \<Rightarrow> True | Some x \<Rightarrow> x \<le> 0)"
  shows "handleSubmit disabled maxAllowed w c = None"
  using assms unfolding handleSubmit_def
  by (cases w; cases c) auto

text \<open>
  Claim C5, as amended. The check of the input is made by \<open>handleSubmit\<close> of the weighing
  panel, not by \<open>addWeight\<close>: a submission whose weight or count is NaN or not greater
  than zero makes no call of \<open>onAdd\<close>, so that no entry is appended and the state is
  unchanged, for every kind of entry; no alert is raised.
\<close>

theorem invalid_submission_rejected:
  assumes "(case w of None \<Rightarrow> True | Some x \<Rightarrow> x \<le> 0) \<or> (case c of None \<Rightarrow> True | Some x \<Rightarrow> x \<le> 0)"
  shows "handleSubmit disabled maxAllowed w c = None
       \<and> submitEntry type disabled maxAllowed w c nowId now st = (None, st)"
  using handleSubmit_invalid[OF assms] by (simp add: submitEntry_def)

text \<open>
  Witness for C5: a negative weight, and a count that is NaN.
\<close>

theorem invalid_submission_witness:
  "handleSubmit False None (Some (- 1)) (Some 5) = None
   \<and> submitEntry MORTALITY False None (Some (- 1)) (Some 5) 7 7 fresh_state
       = (None, fresh_state)
   \<and> submitEntry FULL False (Some 20) (Some 50) None 7 7 fresh_state = (None, fresh_state)"
  using invalid_submission_rejected
          [of "Some (- 1)" "Some 5" False None MORTALITY 7 7 fresh_state]
        invalid_submission_rejected
          [of "Some 50" None False "Some 20" FULL 7 7 fresh_state]
  by simp

text \<open>
  Counterexample to C5 as stated: \<open>addWeight\<close> itself, called with a negative weight and
  a negative count, appends the entry.
\<close>

theorem addWeight_unvalidated_counterexample:
  "mortality (currentSales (snd (addWeight MORTALITY (- 1) (- 1) 7 7 fresh_state)) ! 0)
     = [\<lparr>mort_id = ''7'', mort_count = - 1, mort_weight = - 1, mort_timestamp = 7\<rparr>]
   \<and> mortality (currentSales fresh_state ! 0) = []"
  by (simp add: fresh_state_def ledger_eval)

section \<open>Adding an entry and deleting it again\<close>

lemma filter_fresh: "eid \<notin> set (map f xs) \<Longrightarrow> filter (\<lambda>e. f e \<noteq> eid) xs = xs"
  by (induction xs) auto

lemma removeEntry_fresh:
  "eid \<notin> set (entry_ids type s) \<Longrightarrow> removeEntry type eid s = s"
  by (cases type) (simp_all add: entry_ids_def removeEntry_def filter_fresh)

lemma removeEntry_appendEntry:
  "toString nowId \<notin> set (entry_ids type s) \<Longrightarrow>
   removeEntry type (toString nowId) (appendEntry type w count nowId now s) = s"
  by (cases type) (simp_all add: entry_ids_def removeEntry_def appendEntry_def filter_fresh)

lemma appendEntry_keeps [simp]:
  "sale_id (appendEntry type w count nowId now s) = sale_id s"
  "isCompleted (appendEntry type w count nowId now s) = isCompleted s"
  by (cases type; simp add: appendEntry_def)+

lemma remove_after_append:
  assumes "toString nowId \<notin> set (entry_ids type s)"
  shows "(\<lambda>s. if sale_id s = csid \<and> \<not> isCompleted s
              then removeEntry type (toString nowId) s else s)
           ((\<lambda>s. if sale_id s = csid \<and> \<not> isCompleted s
              then appendEntry type w count nowId now s else s) s) = s"
  using assms by (auto simp add: removeEntry_appendEntry)

lemma remove_fresh_fun:
  assumes "toString nowId \<notin> set (entry_ids type s)"
  shows "(\<lambda>s. if sale_id s = csid \<and> \<not> isCompleted s
              then removeEntry type (toString nowId) s else s) s = s"
  using assms by (simp add: removeEntry_fresh)

lemma delete_fresh_nth:
  assumes i: "i < length (currentSales st)"
      and fresh: "toString nowId \<notin> set (entry_ids type (currentSales st ! i))"
  shows "currentSales (deleteEntry type (toString nowId) st) ! i = currentSales st ! i"
proof (cases rule: deleteEntry_cases[of type "toString nowId" st])
  case noop
  then show ?thesis by simp
next
  case (run csid pid)
  show ?thesis
    unfolding deleteEntry_unfold[OF run] currentSales_update_map[OF run(3)]
    using i remove_fresh_fun[OF fresh] by simp
qed

lemma add_then_delete_nth:
  assumes i: "i < length (currentSales st)"
      and fresh: "toString nowId \<notin> set (entry_ids type (currentSales st ! i))"
  shows "currentSales (deleteEntry type (toString nowId)
                         (snd (addWeight type w count nowId now st))) ! i
         = currentSales st ! i"
proof (cases "fst (addWeight type w count nowId now st)")
  case (Some a)
  then have "snd (addWeight type w count nowId now st) = st"
    by (rule addWeight_rejected_unchanged)
  then show ?thesis using delete_fresh_nth[OF i fresh] by simp
next
  case None
  show ?thesis
  proof (cases rule: addWeight_cases[of type w count nowId now st])
    case noop
    then show ?thesis using delete_fresh_nth[OF i fresh] by simp
  next
    case (run csid pid cp cur)
    let ?g = "\<lambda>s. if sale_id s = csid \<and> \<not> isCompleted s
                   then appendEntry type w count nowId now s else s"
    let ?st1 = "handleUpdateProviderSales pid (map ?g (currentSales st)) st"
    have res: "snd (addWeight type w count nowId now st) = ?st1"
      by (rule addWeight_accepted(4)[OF run None])
    have c1: "currentSaleId ?st1 = Some csid" and p1: "selectedProviderId ?st1 = Some pid"
      using run by simp_all
    have cs1: "currentSales ?st1 = map ?g (currentSales st)"
      by (rule currentSales_update_map[OF run(3)])
    show ?thesis
      unfolding res deleteEntry_unfold[OF c1 run(2) p1 run(4)] currentSales_update_map[OF p1]
      unfolding cs1
      using i remove_after_append[OF fresh] by simp
  qed
qed

text \<open>
  Claim C6. For an open sale that is the current one, adding an entry of any kind whose
  id is fresh in its sequence and then deleting the entry with that id gives back the
  sale, and so the metrics of the original sale; in between, when a provider is selected
  and the addition was accepted, the sale holds the new entry.
\<close>

theorem add_then_delete_restores_metrics:
  fixes st :: AppState and i :: nat and type :: EntryType and w count :: real
    and nowId now :: nat
  defines "s \<equiv> currentSales st ! i"
  defines "st1 \<equiv> snd (addWeight type w count nowId now st)"
  defines "st2 \<equiv> deleteEntry type (toString nowId) st1"
  assumes i: "i < length (currentSales st)"
      and opn: "\<not> isCompleted s"
      and cur: "currentSaleId st = Some (sale_id s)"
      and fresh: "toString nowId \<notin> set (entry_ids type s)"
  shows "currentSales st2 ! i = s
       \<and> calculateSaleMetrics (currentSales st2 ! i) c = calculateSaleMetrics s c
       \<and> (truthy (selectedProviderId st) \<and> sale_id s \<noteq> []
            \<and> fst (addWeight type w count nowId now st) = None \<longrightarrow>
          currentSales st1 ! i = appendEntry type w count nowId now s)"
proof -
  have restored: "currentSales st2 ! i = s"
    unfolding st2_def st1_def s_def
    using fresh by (intro add_then_delete_nth[OF i]) (simp add: s_def)
  have "currentSales st1 ! i = appendEntry type w count nowId now s"
    if "truthy (selectedProviderId st) \<and> sale_id s \<noteq> []
          \<and> fst (addWeight type w count nowId now st) = None"
    unfolding st1_def s_def
    using that opn cur by (intro addWeight_open_nth[OF i]) (simp_all add: s_def)
  then show ?thesis using restored by simp
qed

text \<open>
  Witness for C6: a full-crate entry with the id 7 is added to an open sale, where it is
  accepted, and deleted again.
\<close>

theorem add_then_delete_witness:
  "0 < length (currentSales (example_state False))
   \<and> \<not> isCompleted (currentSales (example_state False) ! 0)
   \<and> currentSaleId (example_state False) = Some ''s1''
   \<and> toString 7 \<notin> set (entry_ids FULL (example_sale False))
   \<and> fullCrates (currentSales (snd (addWeight FULL 25 5 7 7 (example_state False))) ! 0)
       = [\<lparr>entry_id = ''3'', weight = 50, crateCount = 10, timestamp = 3\<rparr>,
          \<lparr>entry_id = ''7'', weight = 25, crateCount = 5, timestamp = 7\<rparr>]
   \<and> currentSales (deleteEntry FULL ''7''
         (snd (addWeight FULL 25 5 7 7 (example_state False)))) ! 0 = example_sale False
   \<and> calculateSaleMetrics (currentSales (deleteEntry FULL ''7''
         (snd (addWeight FULL 25 5 7 7 (example_state False)))) ! 0) (Some 9)
       = calculateSaleMetrics (example_sale False) (Some 9)"
  using add_then_delete_restores_metrics
          [where st = "example_state False" and i = 0 and type = FULL and w = 25
             and count = 5 and nowId = 7 and now = 7 and c = "Some 9"]
  by (simp add: example_state_def example_provider_def example_sale_def ledger_eval
        appendEntry_def entry_ids_def)

section \<open>Scale readings\<close>

lemma digit_char_props:
  assumes "d < 10"
  shows "is_digit (digit_char d)" and "digit_val (digit_char d) = d"
proof -
  from assms have "d \<in> {0, 1, 2, 3, 4, 5, 6, 7, 8, 9}" by auto
  then show "is_digit (digit_char d)" and "digit_val (digit_char d) = d"
    by (auto simp: is_digit_def digit_char_def digit_val_def)
qed

lemma not_digit_point [simp]: "\<not> is_digit (CHR ''.'')" "\<not> is_digit (CHR ''-'')"
  by (simp_all add: is_digit_def)

lemma digit_val_zero [simp]: "digit_val (CHR ''0'') = 0" "is_digit (CHR ''0'')"
  by (simp_all add: digit_val_def is_digit_def)

lemma digits_value_simps [simp]:
  "digits_value [] = 0"
  "digits_value (xs @ [c]) = 10 * digits_value xs + digit_val c"
  by (simp_all add: digits_value_def)

lemma digits_value_append:
  "digits_value (xs @ ys) = digits_value xs * 10 ^ length ys + digits_value ys"
proof (induction ys rule: rev_induct)
  case Nil
  then show ?case by simp
next
  case (snoc y ys)
  have "digits_value (xs @ ys @ [y]) = 10 * digits_value (xs @ ys) + digit_val y"
    using digits_value_simps(2)[of "xs @ ys" y] by simp
  then show ?case by (simp add: snoc algebra_simps)
qed

lemma digits_value_zeros: "digits_value (replicate k (CHR ''0'') @ xs) = digits_value xs"
proof -
  have "digits_value (replicate k (CHR ''0'')) = 0"
    by (induction k) (simp_all add: digits_value_def)
  then show ?thesis by (simp add: digits_value_append)
qed

lemma toString_props:
  "list_all is_digit (toString n) \<and> toString n \<noteq> [] \<and> digits_value (toString n) = n"
proof (induction n rule: toString.induct)
  case (1 n)
  show ?case
  proof (cases "n < 10")
    case True
    then have "toString n = [digit_char n]" by (simp add: toString.simps)
    then show ?thesis
      using digit_char_props[OF True] digits_value_simps(2)[of "[]" "digit_char n"] by simp
  next
    case False
    then have eq: "toString n = toString (n div 10) @ [digit_char (n mod 10)]"
      by (subst toString.simps) simp
    have "n mod 10 < 10" by simp
    from digit_char_props[OF this] 1[OF False] show ?thesis
      unfolding eq by simp
  qed
qed

lemma takeWhile_digits:
  assumes "list_all is_digit xs" and "ys = [] \<or> \<not> is_digit (hd ys)"
  shows "takeWhile is_digit (xs @ ys) = xs" and "dropWhile is_digit (xs @ ys) = ys"
proof -
  have a: "\<forall>x\<in>set xs. is_digit x" using assms(1) by (simp add: list_all_iff)
  have t: "takeWhile is_digit ys = []" and d: "dropWhile is_digit ys = ys"
    using assms(2) by (cases ys; simp)+
  show "takeWhile is_digit (xs @ ys) = xs"
    using a t by (simp add: takeWhile_append2)
  show "dropWhile is_digit (xs @ ys) = ys"
    using a d by (simp add: dropWhile_append2)
qed

lemma parseFloat_decimal:
  assumes "list_all is_digit ip" "ip \<noteq> []" "list_all is_digit fp"
      and "rest = [] \<or> \<not> is_digit (hd rest)"
  shows "parseFloat (ip @ CHR ''.'' # fp @ rest)
           = Some (real (digits_value ip) + real (digits_value fp) / 10 ^ length fp)"
proof -
  have h: "hd (ip @ CHR ''.'' # fp @ rest) \<noteq> CHR ''-''"
    using assms(1,2) by (cases ip) auto
  have t: "takeWhile is_digit (ip @ CHR ''.'' # fp @ rest) = ip"
    and d: "dropWhile is_digit (ip @ CHR ''.'' # fp @ rest) = CHR ''.'' # fp @ rest"
    using takeWhile_digits[OF assms(1), of "CHR ''.'' # fp @ rest"] by simp_all
  have f: "takeWhile is_digit (fp @ rest) = fp"
    using takeWhile_digits(1)[OF assms(3,4)] .
  show ?thesis
    unfolding parseFloat_def Let_def using h assms(2) by (simp add: t d f)
qed

lemma parseFloat_integer:
  assumes "list_all is_digit ip" "ip \<noteq> []"
      and "rest = [] \<or> (\<not> is_digit (hd rest) \<and> hd rest \<noteq> CHR ''.'')"
  shows "parseFloat (ip @ rest) = Some (real (digits_value ip))"
proof -
  have h: "hd (ip @ rest) \<noteq> CHR ''-''"
    using assms(1,2) by (cases ip) auto
  have nd: "rest = [] \<or> \<not> is_digit (hd rest)" using assms(3) by auto
  have t: "takeWhile is_digit (ip @ rest) = ip"
    and d: "dropWhile is_digit (ip @ rest) = rest"
    using takeWhile_digits[OF assms(1) nd] by simp_all
  have "(case rest of [] \<Rightarrow> [] | c # r' \<Rightarrow> if c = CHR ''.'' then takeWhile is_digit r' else [])
          = []"
    using assms(3) by (cases rest) auto
  then show ?thesis
    unfolding parseFloat_def Let_def using h assms(2) by (simp add: t d)
qed

lemma parseFloat_toFixed:
  assumes "0 \<le> x" and "0 < f"
  shows "parseFloat (toFixed f x) = Some (real (nat \<lfloor>x * 10 ^ f + 1 / 2\<rfloor>) / 10 ^ f)"
proof -
  define n where "n = nat \<lfloor>x * 10 ^ f + 1 / 2\<rfloor>"
  define padded where "padded = replicate (f + 1 - length (toString n)) (CHR ''0'') @ toString n"
  define k where "k = length padded - f"
  have len: "f + 1 \<le> length padded" by (simp add: padded_def)
  have dig: "list_all is_digit padded"
    using toString_props[of n] by (auto simp: padded_def list_all_iff)
  have val: "digits_value padded = n"
    using toString_props[of n] by (simp add: padded_def digits_value_zeros)
  have ip: "list_all is_digit (take k padded)" "take k padded \<noteq> []"
    and fp: "list_all is_digit (drop k padded)" "length (drop k padded) = f"
    using dig len by (auto simp: k_def list_all_iff dest: in_set_takeD in_set_dropD)
  have "digits_value (take k padded @ drop k padded) = n" using val by simp
  then have split: "digits_value (take k padded) * 10 ^ f + digits_value (drop k padded) = n"
    unfolding digits_value_append fp(2) .
  have tf: "toFixed f x = take k padded @ CHR ''.'' # drop k padded @ []"
    unfolding toFixed_def Let_def
    unfolding abs_of_nonneg[OF assms(1)] n_def[symmetric]
    unfolding padded_def[symmetric]
    unfolding k_def[symmetric]
    using assms by simp
  have "parseFloat (toFixed f x) =
          Some (real (digits_value (take k padded))
                + real (digits_value (drop k padded)) / 10 ^ f)"
    unfolding tf using parseFloat_decimal[OF ip fp(1), of "[]"] fp(2) by simp
  also have "real (digits_value (take k padded)) + real (digits_value (drop k padded)) / 10 ^ f
             = real n / 10 ^ f"
    unfolding split[symmetric] by (simp add: field_simps)
  finally show ?thesis unfolding n_def .
qed

lemma match_number_decomp:
  assumes pre: "list_all (\<lambda>c. \<not> is_digit c) pre"
      and ip: "list_all is_digit ip" "ip \<noteq> []"
      and rest: "rest = [] \<or> \<not> is_digit (hd rest)"
  shows "match_number (pre @ ip @ rest) = Some (ip @ fraction_of rest)"
proof -
  have hd: "is_digit (hd ip)" using ip by (cases ip) simp_all
  have "dropWhile (\<lambda>c. \<not> is_digit c) (ip @ rest) = ip @ rest"
    using hd ip(2) by (cases ip) simp_all
  then have s: "dropWhile (\<lambda>c. \<not> is_digit c) (pre @ ip @ rest) = ip @ rest"
    using pre by (simp add: dropWhile_append2 list_all_iff)
  have ne: "ip @ rest \<noteq> []" using ip(2) by simp
  show ?thesis
    unfolding match_number_def Let_def s takeWhile_digits[OF ip(1) rest] fraction_of_def
    using ne by (simp split: list.splits)
qed

lemma match_number_None:
  "list_all (\<lambda>c. \<not> is_digit c) text \<Longrightarrow> match_number text = None"
  by (simp add: match_number_def list_all_iff)

lemma text_decomp:
  assumes "\<not> list_all (\<lambda>c. \<not> is_digit c) text"
  obtains pre ip rest where "text = pre @ ip @ rest"
    "list_all (\<lambda>c. \<not> is_digit c) pre" "list_all is_digit ip" "ip \<noteq> []"
    "rest = [] \<or> \<not> is_digit (hd rest)"
proof -
  let ?pre = "takeWhile (\<lambda>c. \<not> is_digit c) text"
  let ?s = "dropWhile (\<lambda>c. \<not> is_digit c) text"
  let ?ip = "takeWhile is_digit ?s"
  let ?rest = "dropWhile is_digit ?s"
  have s: "?s \<noteq> []" using assms by (auto simp: list_all_iff)
  then have "is_digit (hd ?s)" using hd_dropWhile[of "\<lambda>c. \<not> is_digit c" "text"] by simp
  then have "?ip \<noteq> []" using s by (cases ?s) simp_all
  moreover have "text = ?pre @ ?ip @ ?rest" by simp
  moreover have "list_all (\<lambda>c. \<not> is_digit c) ?pre"
    by (auto simp: list_all_iff dest: set_takeWhileD)
  moreover have "list_all is_digit ?ip"
    by (auto simp: list_all_iff dest: set_takeWhileD)
  moreover have "?rest = [] \<or> \<not> is_digit (hd ?rest)"
    using hd_dropWhile[of is_digit ?s] by auto
  ultimately show ?thesis using that by blast
qed

lemma list_all_takeWhile: "list_all P (takeWhile P xs)"
  by (auto simp: list_all_iff dest: set_takeWhileD)

lemma parseFloat_match:
  assumes "match_number text = Some m"
  shows "\<exists>v. parseFloat m = Some v \<and> 0 \<le> v"
proof (cases "list_all (\<lambda>c. \<not> is_digit c) text")
  case True
  then show ?thesis using assms by (simp add: match_number_None)
next
  case False
  then obtain pre ip rest where d: "text = pre @ ip @ rest"
    "list_all (\<lambda>c. \<not> is_digit c) pre" "list_all is_digit ip" "ip \<noteq> []"
    "rest = [] \<or> \<not> is_digit (hd rest)"
    by (rule text_decomp)
  have m: "m = ip @ fraction_of rest"
    using assms match_number_decomp[OF d(2-5)] d(1) by simp
  show ?thesis
  proof (cases "fraction_of rest = []")
    case True
    then show ?thesis
      using parseFloat_integer[OF d(3,4), of "[]"] m by simp
  next
    case False
    then obtain r' where f: "fraction_of rest = CHR ''.'' # takeWhile is_digit r'"
      by (auto simp: fraction_of_def split: list.splits if_splits)
    show ?thesis
      using parseFloat_decimal[OF d(3,4) list_all_takeWhile[of is_digit r'], of "[]"]
      by (simp add: m f)
  qed
qed

lemma simulated_value:
  assumes "0 \<le> r"
  shows "parseFloat (toFixed 2 (r * 20 + 10))
           = Some (real (nat \<lfloor>(r * 20 + 10) * 100 + 1 / 2\<rfloor>) / 100)"
proof -
  have "0 \<le> r * 20 + 10" using assms by simp
  from parseFloat_toFixed[OF this, of 2] show ?thesis by simp
qed

lemmas scale_eval = readScaleWeight_def parseFloat_def toFixed_def match_number_def
  is_digit_def digit_val_def digits_value_def digit_char_def Let_def toString.simps
  fraction_of_def

text \<open>
  Claim C7, as amended. When the characteristic holds a payload, the reading is the
  first unsigned decimal number in its text: the first run of digits, with the point and
  the digits after it when they follow directly; a sign before the digits is not part of
  the number. A payload without a digit, like no payload at all, gives the simulated
  reading: the draw scaled to 10 + 20 * random and rounded to hundredths. The result is
  a number and, for a random draw that is not negative, never negative.
\<close>

theorem readScaleWeight_first_unsigned_decimal:
  assumes "char_value ch = Some text"
  shows "(list_all (\<lambda>c. \<not> is_digit c) text \<longrightarrow>
            readScaleWeight (Some ch) r = readScaleWeight None r)
       \<and> (text = pre @ ip @ rest \<and> list_all (\<lambda>c. \<not> is_digit c) pre
            \<and> list_all is_digit ip \<and> ip \<noteq> []
            \<and> (rest = [] \<or> \<not> is_digit (hd rest)) \<and> fraction_of rest = [] \<longrightarrow>
            readScaleWeight (Some ch) r = Some (real (digits_value ip)))
       \<and> (text = pre' @ ip' @ CHR ''.'' # fp' @ rest' \<and> list_all (\<lambda>c. \<not> is_digit c) pre'
            \<and> list_all is_digit ip' \<and> ip' \<noteq> [] \<and> list_all is_digit fp' \<and> fp' \<noteq> []
            \<and> (rest' = [] \<or> \<not> is_digit (hd rest')) \<longrightarrow>
            readScaleWeight (Some ch) r
              = Some (real (digits_value ip') + real (digits_value fp') / 10 ^ length fp'))
       \<and> (0 \<le> r \<longrightarrow> (\<exists>v. readScaleWeight (Some ch) r = Some v \<and> 0 \<le> v))
       \<and> (0 \<le> r \<longrightarrow>
            readScaleWeight None r
              = Some (real (nat \<lfloor>(r * 20 + 10) * 100 + 1 / 2\<rfloor>) / 100))"
proof (intro conjI impI)
  assume "list_all (\<lambda>c. \<not> is_digit c) text"
  then show "readScaleWeight (Some ch) r = readScaleWeight None r"
    using assms by (simp add: readScaleWeight_def match_number_None)
next
  assume a: "text = pre @ ip @ rest \<and> list_all (\<lambda>c. \<not> is_digit c) pre
            \<and> list_all is_digit ip \<and> ip \<noteq> []
            \<and> (rest = [] \<or> \<not> is_digit (hd rest)) \<and> fraction_of rest = []"
  then have "match_number text = Some ip"
    using match_number_decomp[of pre ip rest] by simp
  moreover have "parseFloat ip = Some (real (digits_value ip))"
    using parseFloat_integer[of ip "[]"] a by simp
  ultimately show "readScaleWeight (Some ch) r = Some (real (digits_value ip))"
    using assms by (simp add: readScaleWeight_def)
next
  assume a: "text = pre' @ ip' @ CHR ''.'' # fp' @ rest' \<and> list_all (\<lambda>c. \<not> is_digit c) pre'
            \<and> list_all is_digit ip' \<and> ip' \<noteq> [] \<and> list_all is_digit fp' \<and> fp' \<noteq> []
            \<and> (rest' = [] \<or> \<not> is_digit (hd rest'))"
  then have t: "takeWhile is_digit (fp' @ rest') = fp'"
    using takeWhile_digits(1)[of fp' rest'] by simp
  have "fraction_of (CHR ''.'' # fp' @ rest') = CHR ''.'' # fp'"
    using a by (simp add: fraction_of_def t)
  then have "match_number text = Some (ip' @ CHR ''.'' # fp')"
    using match_number_decomp[of pre' ip' "CHR ''.'' # fp' @ rest'"] a by simp
  moreover have "parseFloat (ip' @ CHR ''.'' # fp')
                   = Some (real (digits_value ip') + real (digits_value fp') / 10 ^ length fp')"
    using parseFloat_decimal[of ip' fp' "[]"] a by simp
  ultimately show "readScaleWeight (Some ch) r
              = Some (real (digits_value ip') + real (digits_value fp') / 10 ^ length fp')"
    using assms by (simp add: readScaleWeight_def)
next
  assume r: "0 \<le> r"
  show "\<exists>v. readScaleWeight (Some ch) r = Some v \<and> 0 \<le> v"
  proof (cases "match_number text")
    case None
    have "0 \<le> real (nat \<lfloor>(r * 20 + 10) * 100 + 1 / 2\<rfloor>) / 100" by simp
    moreover have "readScaleWeight (Some ch) r = parseFloat (toFixed 2 (r * 20 + 10))"
      using assms None by (simp add: readScaleWeight_def)
    ultimately show ?thesis
      unfolding simulated_value[OF r] by blast
  next
    case (Some m)
    then show ?thesis
      using assms parseFloat_match[OF Some] by (simp add: readScaleWeight_def)
  qed
next
  assume "0 \<le> r"
  then show "readScaleWeight None r
               = Some (real (nat \<lfloor>(r * 20 + 10) * 100 + 1 / 2\<rfloor>) / 100)"
    using simulated_value by (simp add: readScaleWeight_def)
qed
text \<open>
  Witness for C7: a payload with a fraction, one with an integer, one without digits,
  and no payload.
\<close>

theorem readScaleWeight_witness:
  "readScaleWeight (Some \<lparr>char_value = Some ''ST,GS,+  10.50kg''\<rparr>) 0 = Some (21 / 2)
   \<and> readScaleWeight (Some \<lparr>char_value = Some ''W 12 kg''\<rparr>) 0 = Some 12
   \<and> readScaleWeight (Some \<lparr>char_value = Some ''kg''\<rparr>) (1 / 2) = Some 20
   \<and> readScaleWeight None (1 / 2) = Some 20"
  using readScaleWeight_first_unsigned_decimal
    [of "\<lparr>char_value = Some ''ST,GS,+  10.50kg''\<rparr>" "''ST,GS,+  10.50kg''" 0
        "[]" "[]" "[]" "''ST,GS,+  ''" "''10''" "''50''" "''kg''"]
    readScaleWeight_first_unsigned_decimal
    [of "\<lparr>char_value = Some ''W 12 kg''\<rparr>" "''W 12 kg''" 0
        "''W ''" "''12''" "'' kg''" "[]" "[]" "[]" "[]"]
    readScaleWeight_first_unsigned_decimal
    [of "\<lparr>char_value = Some ''kg''\<rparr>" "''kg''" "1 / 2" "[]" "[]" "[]" "[]" "[]" "[]" "[]"]
  by (simp add: is_digit_def digits_value_def digit_val_def fraction_of_def)

text \<open>
  Counterexample to C7 as stated: for the payload \<open>-10.5\<close> the first signed decimal
  number is -10.5, and the reading is 10.5.
\<close>

theorem readScaleWeight_sign_counterexample:
  "readScaleWeight (Some \<lparr>char_value = Some ''-10.5''\<rparr>) 0 = Some (21 / 2)
   \<and> spec_signed_decimal ''-10.5'' = Some (- (21 / 2))"
  by (simp add: scale_eval spec_signed_decimal_def)

text \<open>
  Claim C10, as amended. Without a characteristic, or before a value has arrived, the
  simulated reading for a random draw in \<open>[0, 1)\<close> is a whole number of hundredths
  between 10 and 30, both included.
\<close>

theorem simulated_reading_range:
  assumes "0 \<le> r" and "r < 1"
      and "case sc of None \<Rightarrow> True | Some ch \<Rightarrow> char_value ch = None"
  shows "readScaleWeight sc r = Some (real (nat \<lfloor>(r * 20 + 10) * 100 + 1 / 2\<rfloor>) / 100)
       \<and> 1000 \<le> nat \<lfloor>(r * 20 + 10) * 100 + 1 / 2\<rfloor>
       \<and> nat \<lfloor>(r * 20 + 10) * 100 + 1 / 2\<rfloor> \<le> 3000"
proof -
  define k where "k = \<lfloor>(r * 20 + 10) * 100 + 1 / 2\<rfloor>"
  have "readScaleWeight sc r = parseFloat (toFixed 2 (r * 20 + 10))"
    using assms(3) by (simp add: readScaleWeight_def split: option.splits)
  then have v: "readScaleWeight sc r = Some (real (nat k) / 100)"
    unfolding k_def using simulated_value[OF assms(1)] by simp
  have "real_of_int 1000 \<le> (r * 20 + 10) * 100 + 1 / 2" using assms(1) by simp
  then have lo: "1000 \<le> k" unfolding k_def by (rule le_floor_iff[THEN iffD2])
  have "(r * 20 + 10) * 100 + 1 / 2 < real_of_int 3001" using assms(2) by simp
  then have "k < 3001" unfolding k_def by (rule floor_less_iff[THEN iffD2])
  then have hi: "k \<le> 3000" by simp
  have "1000 \<le> nat k" "nat k \<le> 3000" using lo hi by linarith+
  then show ?thesis
    using v unfolding k_def[symmetric] by simp
qed

text \<open>
  Witness for C10: the draws 1/4 and 1/3.
\<close>

theorem simulated_reading_witness:
  "(0::real) \<le> 1 / 4 \<and> (1 / 4 :: real) < 1
   \<and> readScaleWeight None (1 / 4) = Some 15
   \<and> readScaleWeight (Some \<lparr>char_value = None\<rparr>) (1 / 3) = Some (1667 / 100)"
  using simulated_reading_range[of "1 / 4" None]
        simulated_reading_range[of "1 / 3" "Some \<lparr>char_value = None\<rparr>"]
  by simp

text \<open>
  Counterexample to C10 as stated: the draw 0.9999 gives 29.998, which \<open>toFixed(2)\<close>
  rounds to 30.00, outside \<open>[10, 30)\<close>.
\<close>

theorem simulated_reading_counterexample:
  "(0::real) \<le> 9999 / 10000 \<and> (9999 / 10000 :: real) < 1
   \<and> readScaleWeight None (9999 / 10000) = Some 30"
  by (simp add: scale_eval)

section \<open>Ticket preview\<close>

lemma preview_template_CENTER:
  "preview (template ((CENTER @ t) # ls))
     = [CHR 0x0A, CHR ''a'', CHR 0x01] @ preview (t @ NL @ concat (map (\<lambda>l. l @ NL) ls))"
  by (simp add: template_def preview_def CENTER_def ESC_def NL_def)

lemma preview_title:
  "take 20 ([CHR 0x0A, CHR ''a'', CHR 0x01] @ preview (''POLLO CONTROL PRO'' @ rest))
     = [CHR 0x0A, CHR ''a'', CHR 0x01] @ ''POLLO CONTROL PRO''"
  by (simp add: preview_def)

lemma preview_summary_title:
  "take 23 ([CHR 0x0A, CHR ''a'', CHR 0x01] @ preview (''RESUMEN DE PROVEEDOR'' @ rest))
     = [CHR 0x0A, CHR ''a'', CHR 0x01] @ ''RESUMEN DE PROVEEDOR''"
  by (simp add: preview_def)

text \<open>
  Claim C8, evaluated on the code. The preview removes only the bytes 0x1B and 0x1D, so
  the rest of every directive stays in the displayed text: the preview of every client
  ticket opens with a line break, the letter \<open>a\<close> and the byte 0x01 of \<open>CENTER\<close> before
  the title, and so does the preview of every provider summary.
\<close>

theorem preview_keeps_directive_residue:
  "take 20 (preview (generateTicket js sale provider))
     = [CHR 0x0A, CHR ''a'', CHR 0x01] @ ''POLLO CONTROL PRO''
   \<and> (case currentProvider st of
        None \<Rightarrow> preview (generateProviderSummary js now st) = []
      | Some cp \<Rightarrow>
          take 23 (preview (generateProviderSummary js now st))
            = [CHR 0x0A, CHR ''a'', CHR 0x01] @ ''RESUMEN DE PROVEEDOR'')"
proof
  show "take 20 (preview (generateTicket js sale provider))
          = [CHR 0x0A, CHR ''a'', CHR 0x01] @ ''POLLO CONTROL PRO''"
    unfolding generateTicket_def Let_def preview_template_CENTER
    by (rule preview_title)
  show "case currentProvider st of
        None \<Rightarrow> preview (generateProviderSummary js now st) = []
      | Some cp \<Rightarrow>
          take 23 (preview (generateProviderSummary js now st))
            = [CHR 0x0A, CHR ''a'', CHR 0x01] @ ''RESUMEN DE PROVEEDOR''"
  proof (cases "currentProvider st")
    case None
    then show ?thesis by (simp add: generateProviderSummary_def preview_def)
  next
    case (Some cp)
    have "take 23 (preview (generateProviderSummary js now st))
            = [CHR 0x0A, CHR ''a'', CHR 0x01] @ ''RESUMEN DE PROVEEDOR''"
      unfolding generateProviderSummary_def Some option.case Let_def preview_template_CENTER
      by (rule preview_summary_title)
    then show ?thesis using Some by simp
  qed
qed

text \<open>
  The preview of the ticket of a fresh sale, in full: the remainders of \<open>CENTER\<close>,
  \<open>LEFT\<close>, \<open>BOLD_ON\<close> and \<open>BOLD_OFF\<close> stand between the lines.
\<close>

lemma preview_of_fresh_ticket:
  "preview (generateTicket plain_builtins (hd (currentSales fresh_state))
              (hd (providers fresh_state)))
   = [CHR 0x0A, CHR ''a'', CHR 0x01] @ concat
      [''POLLO CONTROL PRO'', NL,
       ''PROVEEDOR: GRANJA'', NL,
       ''--------------------------------'', NL,
       ''CLIENTE: ANA'', NL,
       ''FECHA: 2'', NL,
       ''(PENDIENTE)'', NL,
       ''--------------------------------'', NL,
       [CHR ''a'', CHR 0x00], NL,
       ''Jabas Solicitadas: 20'', NL,
       ''Jabas Llenas:      0'', NL,
       ''Peso Bruto:        0.00 kg'', NL,
       ''Jabas Vacias:      0'', NL,
       ''Tara (Prom):       0.00 kg'', NL,
       ''Muertos:           0 und'', NL,
       ''Peso Muertos:      0.00 kg'', NL,
       ''--------------------------------'', NL,
       [CHR ''E'', CHR 0x01], ''PESO NETO:      0.00 kg'', [CHR ''E'', CHR 0x00], NL,
       ''Prom. Pollo:       0.000 kg'', NL,
       ''--------------------------------'', NL]"
  by code_simp

end
